theory Spec2Isabelle
  imports Complex_Main "HOL-Library.Log_Nat"
begin

section \<open>Data model of the usage monitor\<close>

text \<open>
  The service of \<^verbatim>\<open>src/services/claudeUsageMonitorService.js\<close> talks to
  collaborators that are not part of the file (the account store, the usage fetcher, the
  token service, the relay) and writes log lines. A function of the service is modelled
  as a function from the collaborators' world to its result, the world after it, and the
  list of effects it emitted, in order.
\<close>

text \<open>A thrown JavaScript exception, with its message.\<close>

datatype error = Error string

fun message_of :: "error \<Rightarrow> string" where
  "message_of (Error m) = m"

text \<open>
  The field \<^verbatim>\<open>resets_at\<close> of a usage window, as the code reads it: \<open>Absent\<close> is
  every falsy value (null, undefined, the empty string), \<open>At t\<close> a value that
  \<^verbatim>\<open>new Date(..).getTime()\<close> turns into the epoch milliseconds \<open>t\<close>, and
  \<open>Unparsable\<close> a truthy value whose time is NaN. JavaScript dates lie within
  8.64e15 ms of the epoch, so the additions and subtractions of the code are exact on
  them and \<open>int\<close> models them.
\<close>

datatype resets_at = Absent | Unparsable | At int

text \<open>
  A utilization is a finite double, given by the rational number that it is; \<open>None\<close> is
  a missing value. The arithmetic that the code does on it is the arithmetic of doubles
  (see \<open>fl\<close> below).
\<close>

record usage_window =
  resets_at :: resets_at
  utilization :: "rat option"

record usage_snapshot =
  five_hour :: "usage_window option"
  seven_day :: "usage_window option"

record account =
  acc_id :: string
  acc_name :: string
  isActive :: "string option"
  scopes :: "string option"

datatype window_type = W5h | W7d

record schedule_entry =
  accountName :: string
  resetTime :: int
  windowType :: window_type

record probe_request =
  model :: string
  max_tokens :: nat
  messages :: "(string \<times> string) list"
  accessToken :: string
  proxyAgent :: "string option"
  clientHeaders :: "(string \<times> string) list"
  accountId :: string

record response =
  statusCode :: int
  body :: string

subsection \<open>Effects\<close>

datatype level = Debug | Info | Warn | Err | Success

text \<open>The result of \<^verbatim>\<open>Math.round\<close>: an integer, or the infinity it was given.\<close>

datatype rounded = Rounded int | PlusInfinity | MinusInfinity

text \<open>One constructor for each log line of the file, with the values it prints.\<close>

datatype message =
    AlreadyRunning
  | Starting
  | Started
  | NotRunning
  | ServiceStopped
  | UpdateStarting
  | UsageUpdated string
  | NoUsageData string
  | UpdateFailed string string
  | UpdateCompleted nat nat nat nat nat
  | UpdateAllFailed error
  | NoResetsAt string
  | WindowInitialized string
  | WindowNotInitialized string
  | WindowExpires string int rat rounded
  | Initializing string
  | NoValidToken string
  | InitSuccess string int int
  | WindowState string "rat option" int
  | InitHttpFailed string int string
  | InitError string string
  | NextScheduled int int
  | RunError error
  | NextCheck string window_type int
  | NoUpcomingResets
  | CalcError error

datatype call =
    ListAccounts
  | GetSnapshot string
  | PutSnapshot string usage_snapshot
  | FetchUsage string
  | GetToken string
  | GetProxy string
  | SendProbe probe_request

datatype event = Log level message | Call call | Sleep int

text \<open>
  The collaborators, over a world \<open>'w\<close> that they may change. A call returns
  \<open>Inl e\<close> when it throws (its promise rejects). \<open>parseTokens\<close> stands for
  \<^verbatim>\<open>JSON.parse\<close> of a response body followed by the reading of the two token
  counts of its \<^verbatim>\<open>usage\<close> field: \<open>Inl\<close> when the body is not JSON or is
  the JSON \<^verbatim>\<open>null\<close>. \<open>clock\<close> is \<^verbatim>\<open>Date.now()\<close>; \<open>delay\<close> is what
  awaiting a timer of that many milliseconds does to the world.
\<close>

record 'w env =
  getAllClaudeAccounts :: "'w \<Rightarrow> (error + account list) \<times> 'w"
  getClaudeUsageSnapshot :: "string \<Rightarrow> 'w \<Rightarrow> (error + usage_snapshot option) \<times> 'w"
  updateClaudeUsageSnapshot :: "string \<Rightarrow> usage_snapshot \<Rightarrow> 'w \<Rightarrow> (error + unit) \<times> 'w"
  fetchOAuthUsage :: "string \<Rightarrow> 'w \<Rightarrow> (error + usage_snapshot option) \<times> 'w"
  getValidAccessToken :: "string \<Rightarrow> 'w \<Rightarrow> (error + string option) \<times> 'w"
  getProxyAgent :: "string \<Rightarrow> 'w \<Rightarrow> (error + string option) \<times> 'w"
  makeClaudeRequest :: "probe_request \<Rightarrow> 'w \<Rightarrow> (error + response) \<times> 'w"
  parseTokens :: "string \<Rightarrow> error + (int \<times> int)"
  clock :: "'w \<Rightarrow> int"
  delay :: "int \<Rightarrow> 'w \<Rightarrow> 'w"

subsection \<open>Constants of the constructor\<close>

definition BASE_INTERVAL :: int where
  "BASE_INTERVAL = 20 * 60 * 1000"

definition AFTER_RESET_MINUTES :: int where
  "AFTER_RESET_MINUTES = 5"

definition RESET_THRESHOLD_MINUTES :: int where
  "RESET_THRESHOLD_MINUTES = 10"

text \<open>\<^verbatim>\<open>Math.round\<close>: the nearest integer, a half rounded up.\<close>

definition js_round :: "rat \<Rightarrow> int" where
  "js_round x = \<lfloor>x + 1 / 2\<rfloor>"

subsection \<open>Doubles\<close>

text \<open>
  The arithmetic of IEEE 754 binary64 on rationals: the exact result of an operation is
  rounded to the nearest double, a tie to the one with the even significand. \<open>expo x\<close> is
  the exponent of \<open>x\<close>, the \<open>e\<close> with \<open>2 ^ e \<le> \<bar>x\<bar> < 2 ^ (e + 1)\<close>; the doubles next to
  \<open>x\<close> are the multiples of \<open>2 ^ (e - 52)\<close>, and of \<open>2 ^ - 1074\<close> in the subnormal range.
\<close>

definition expo :: "rat \<Rightarrow> int" where
  "expo x =
     (case quotient_of \<bar>x\<bar> of
        (p, q) \<Rightarrow> (let d = bitlen p - bitlen q in if 2 powi d \<le> \<bar>x\<bar> then d else d - 1))"

definition round_even :: "rat \<Rightarrow> int" where
  "round_even r =
     (let n = \<lfloor>r\<rfloor>; f = r - of_int n
      in if f < 1 / 2 then n else if 1 / 2 < f then n + 1 else if even n then n else n + 1)"

definition ulp_exp :: "rat \<Rightarrow> int" where
  "ulp_exp x = max (expo x - 52) (- 1074)"

definition fl :: "rat \<Rightarrow> rat" where
  "fl x = (if x = 0 then 0 else of_int (round_even (x / 2 powi ulp_exp x)) * 2 powi ulp_exp x)"

text \<open>
  An exact result at or beyond the middle between the largest double and \<open>2 ^ 1024\<close>
  rounds to an infinity.
\<close>

definition overflows :: "rat \<Rightarrow> bool" where
  "overflows x = (2 ^ 1024 - 2 ^ 970 \<le> \<bar>x\<bar>)"

section \<open>The interval planner\<close>

text \<open>
  One of the two blocks of the loop of \<^verbatim>\<open>calculateNextInterval\<close>: the entry pushed
  for a window, if any. An unparsable time gives NaN, and \<^verbatim>\<open>NaN > now\<close> is false.
\<close>

definition window_entry :: "string \<Rightarrow> window_type \<Rightarrow> int \<Rightarrow> usage_window option \<Rightarrow> schedule_entry list" where
  "window_entry name wt now win =
     (case win of
        None \<Rightarrow> []
      | Some uw \<Rightarrow>
          (case resets_at uw of
             Absent \<Rightarrow> []
           | Unparsable \<Rightarrow> []
           | At resetT \<Rightarrow>
               (let triggerTime = resetT + AFTER_RESET_MINUTES * 60 * 1000
                in if triggerTime > now
                   then [\<lparr>accountName = name, resetTime = triggerTime, windowType = wt\<rparr>]
                   else [])))"

text \<open>
  The loop over the accounts: the entries pushed onto \<^verbatim>\<open>resetTimes\<close>, in order, or
  the exception of a snapshot read, which leaves the loop.
\<close>

fun collectResetTimes ::
  "'w env \<Rightarrow> int \<Rightarrow> account list \<Rightarrow> 'w \<Rightarrow> (error + schedule_entry list) \<times> 'w \<times> event list" where
  "collectResetTimes env now [] w = (Inr [], w, [])"
| "collectResetTimes env now (a # rest) w =
     (if isActive a \<noteq> Some ''true'' then collectResetTimes env now rest w
      else
        (case getClaudeUsageSnapshot env (acc_id a) w of
           (Inl e, w1) \<Rightarrow> (Inl e, w1, [Call (GetSnapshot (acc_id a))])
         | (Inr None, w1) \<Rightarrow>
             (case collectResetTimes env now rest w1 of
                (r, w2, evs) \<Rightarrow> (r, w2, Call (GetSnapshot (acc_id a)) # evs))
         | (Inr (Some usageSnapshot), w1) \<Rightarrow>
             (case collectResetTimes env now rest w1 of
                (Inl e, w2, evs) \<Rightarrow> (Inl e, w2, Call (GetSnapshot (acc_id a)) # evs)
              | (Inr others, w2, evs) \<Rightarrow>
                  (Inr (window_entry (acc_name a) W5h now (five_hour usageSnapshot)
                        @ window_entry (acc_name a) W7d now (seven_day usageSnapshot)
                        @ others),
                   w2, Call (GetSnapshot (acc_id a)) # evs))))"

text \<open>
  What follows the loop (lines 306 to 323). \<^verbatim>\<open>Array.prototype.sort\<close> is stable, as
  \<open>sort_key\<close> is. Both ways past the inner \<^verbatim>\<open>return\<close> end at the base interval.
\<close>

definition chooseInterval :: "int \<Rightarrow> schedule_entry list \<Rightarrow> int \<times> event list" where
  "chooseInterval now resetTimes =
     (if resetTimes \<noteq> []
      then
        (let nearest = hd (sort_key resetTime resetTimes);
             interval = resetTime nearest - now
         in if interval < BASE_INTERVAL
            then (max interval 60000,
                  [Log Info (NextCheck (accountName nearest) (windowType nearest)
                               (js_round (of_int interval / 60000)))])
            else (BASE_INTERVAL, [Log Info NoUpcomingResets]))
      else (BASE_INTERVAL, [Log Info NoUpcomingResets]))"

text \<open>
  \<^verbatim>\<open>calculateNextInterval\<close>. The whole body is inside a \<^verbatim>\<open>try\<close> whose handler
  logs and returns the base interval, so the promise never rejects: the result is
  always \<open>Inr\<close>.
\<close>

definition calculateNextInterval :: "'w env \<Rightarrow> 'w \<Rightarrow> (error + int) \<times> 'w \<times> event list" where
  "calculateNextInterval env w =
     (case getAllClaudeAccounts env w of
        (Inl e, w1) \<Rightarrow> (Inr BASE_INTERVAL, w1, [Call ListAccounts, Log Err (CalcError e)])
      | (Inr accounts, w1) \<Rightarrow>
          (let now = clock env w1 in
           case collectResetTimes env now accounts w1 of
             (Inl e, w2, evs) \<Rightarrow>
               (Inr BASE_INTERVAL, w2, Call ListAccounts # evs @ [Log Err (CalcError e)])
           | (Inr resetTimes, w2, evs) \<Rightarrow>
               (case chooseInterval now resetTimes of
                  (interval, logs) \<Rightarrow> (Inr interval, w2, Call ListAccounts # evs @ logs))))"

section \<open>The window prober\<close>

text \<open>
  Lines 207 to 218 of \<^verbatim>\<open>triggerFiveHourInitialization\<close>: after the settle delay the
  usage is fetched again; when its five-hour window has a truthy \<^verbatim>\<open>resets_at\<close> the
  snapshot is stored and the window is logged. \<open>Inl\<close> is an exception on the way to the
  handler of the function: of the fetch, of the store, or the RangeError of
  \<^verbatim>\<open>toISOString\<close> on a date that did not parse (raised after the store).
\<close>

definition verifyActivation :: "'w env \<Rightarrow> account \<Rightarrow> 'w \<Rightarrow> (error + bool) \<times> 'w \<times> event list" where
  "verifyActivation env account w =
     (let w0 = delay env 2000 w in
      case fetchOAuthUsage env (acc_id account) w0 of
        (Inl e, w1) \<Rightarrow> (Inl e, w1, [Sleep 2000, Call (FetchUsage (acc_id account))])
      | (Inr None, w1) \<Rightarrow> (Inr False, w1, [Sleep 2000, Call (FetchUsage (acc_id account))])
      | (Inr (Some newUsage), w1) \<Rightarrow>
          (case five_hour newUsage of
             None \<Rightarrow> (Inr False, w1, [Sleep 2000, Call (FetchUsage (acc_id account))])
           | Some fh \<Rightarrow>
               (if resets_at fh = Absent
                then (Inr False, w1, [Sleep 2000, Call (FetchUsage (acc_id account))])
                else
                  (case updateClaudeUsageSnapshot env (acc_id account) newUsage w1 of
                     (Inl e, w2) \<Rightarrow>
                       (Inl e, w2,
                        [Sleep 2000, Call (FetchUsage (acc_id account)),
                         Call (PutSnapshot (acc_id account) newUsage)])
                   | (Inr u, w2) \<Rightarrow>
                       (case resets_at fh of
                          At resets \<Rightarrow>
                            (Inr True, w2,
                             [Sleep 2000, Call (FetchUsage (acc_id account)),
                              Call (PutSnapshot (acc_id account) newUsage),
                              Log Info (WindowState (acc_name account) (utilization fh) resets)])
                        | _ \<Rightarrow>
                            (Inl (Error ''Invalid time value''), w2,
                             [Sleep 2000, Call (FetchUsage (acc_id account)),
                              Call (PutSnapshot (acc_id account) newUsage)]))))))"

text \<open>The request of lines 181 to 199.\<close>

definition probeRequest :: "account \<Rightarrow> string \<Rightarrow> string option \<Rightarrow> probe_request" where
  "probeRequest account token proxy =
     \<lparr>model = ''claude-3-haiku-20240307'', max_tokens = 10,
      messages = [(''user'', ''Hi'')], accessToken = token, proxyAgent = proxy,
      clientHeaders = [(''user-agent'', ''claude-relay-service/usage-monitor'')],
      accountId = acc_id account\<rparr>"

text \<open>
  The body of the \<^verbatim>\<open>try\<close> of \<^verbatim>\<open>triggerFiveHourInitialization\<close>; \<open>Inl\<close> is an
  exception that reaches the handler. A token is \<open>None\<close> when it is falsy.
\<close>

definition tryInitialization :: "'w env \<Rightarrow> account \<Rightarrow> 'w \<Rightarrow> (error + bool) \<times> 'w \<times> event list" where
  "tryInitialization env account w =
     (case getValidAccessToken env (acc_id account) w of
        (Inl e, w1) \<Rightarrow>
          (Inl e, w1, [Log Info (Initializing (acc_name account)), Call (GetToken (acc_id account))])
      | (Inr None, w1) \<Rightarrow>
          (Inr False, w1,
           [Log Info (Initializing (acc_name account)), Call (GetToken (acc_id account)),
            Log Warn (NoValidToken (acc_name account))])
      | (Inr (Some token), w1) \<Rightarrow>
          (case getProxyAgent env (acc_id account) w1 of
             (Inl e, w2) \<Rightarrow>
               (Inl e, w2,
                [Log Info (Initializing (acc_name account)), Call (GetToken (acc_id account)),
                 Call (GetProxy (acc_id account))])
           | (Inr proxy, w2) \<Rightarrow>
               (case makeClaudeRequest env (probeRequest account token proxy) w2 of
                  (Inl e, w3) \<Rightarrow>
                    (Inl e, w3,
                     [Log Info (Initializing (acc_name account)), Call (GetToken (acc_id account)),
                      Call (GetProxy (acc_id account)),
                      Call (SendProbe (probeRequest account token proxy))])
                | (Inr resp, w3) \<Rightarrow>
                    (if statusCode resp = 200
                     then
                       (case parseTokens env (body resp) of
                          Inl e \<Rightarrow>
                            (Inl e, w3,
                             [Log Info (Initializing (acc_name account)),
                              Call (GetToken (acc_id account)), Call (GetProxy (acc_id account)),
                              Call (SendProbe (probeRequest account token proxy))])
                        | Inr (tin, tout) \<Rightarrow>
                            (case verifyActivation env account w3 of
                               (r, w4, evs) \<Rightarrow>
                                 (r, w4,
                                  [Log Info (Initializing (acc_name account)),
                                   Call (GetToken (acc_id account)),
                                   Call (GetProxy (acc_id account)),
                                   Call (SendProbe (probeRequest account token proxy)),
                                   Log Info (InitSuccess (acc_name account) tin tout)] @ evs)))
                     else
                       (Inr False, w3,
                        [Log Info (Initializing (acc_name account)),
                         Call (GetToken (acc_id account)), Call (GetProxy (acc_id account)),
                         Call (SendProbe (probeRequest account token proxy)),
                         Log Err (InitHttpFailed (acc_name account) (statusCode resp)
                                    (take 200 (body resp)))])))))"

text \<open>\<^verbatim>\<open>triggerFiveHourInitialization\<close>: the handler logs the exception and returns false.\<close>

definition triggerFiveHourInitialization :: "'w env \<Rightarrow> account \<Rightarrow> 'w \<Rightarrow> bool \<times> 'w \<times> event list" where
  "triggerFiveHourInitialization env account w =
     (case tryInitialization env account w of
        (Inl e, w1, evs) \<Rightarrow>
          (False, w1, evs @ [Log Err (InitError (acc_name account) (message_of e))])
      | (Inr b, w1, evs) \<Rightarrow> (b, w1, evs))"

section \<open>The dormant-window check\<close>

text \<open>
  Line 148, \<^verbatim>\<open>Math.round((1 - utilization) * 100)\<close>: the difference and the product
  are doubles. The difference of 1 and a finite double is finite; the product can
  overflow, and \<^verbatim>\<open>Math.round\<close> returns an infinity as it is. On a finite double
  \<^verbatim>\<open>Math.round\<close> is exact.
\<close>

definition remainingQuota :: "rat \<Rightarrow> rounded" where
  "remainingQuota util =
     (let product = fl (1 - util) * 100
      in if overflows product
         then (if 0 < product then PlusInfinity else MinusInfinity)
         else Rounded (js_round (fl product)))"

text \<open>
  \<^verbatim>\<open>checkAndResetFiveHourWindow\<close>. \<^verbatim>\<open>Math.floor\<close> of the quotient is \<open>div\<close>;
  with an unparsable date the minutes are NaN and the comparison is false. The prober
  never throws and nothing else in the \<^verbatim>\<open>try\<close> does, so the handler of this function
  has no branch here.
\<close>

definition checkAndResetFiveHourWindow ::
  "'w env \<Rightarrow> account \<Rightarrow> usage_window \<Rightarrow> 'w \<Rightarrow> bool \<times> 'w \<times> event list" where
  "checkAndResetFiveHourWindow env account fiveHourData w =
     (case resets_at fiveHourData of
        Absent \<Rightarrow>
          (case triggerFiveHourInitialization env account w of
             (initSuccess, w1, evs) \<Rightarrow>
               (if initSuccess
                then (True, w1,
                      Log Info (NoResetsAt (acc_name account)) # evs
                      @ [Log Success (WindowInitialized (acc_name account))])
                else (False, w1,
                      Log Info (NoResetsAt (acc_name account)) # evs
                      @ [Log Warn (WindowNotInitialized (acc_name account))])))
      | Unparsable \<Rightarrow> (False, w, [])
      | At resetsAt \<Rightarrow>
          (let now = clock env w;
               remainingMinutes = (resetsAt - now) div (1000 * 60)
           in if remainingMinutes \<le> RESET_THRESHOLD_MINUTES
              then
                (let util = (case utilization fiveHourData of None \<Rightarrow> 0 | Some u \<Rightarrow> u)
                 in (False, w,
                     [Log Info (WindowExpires (acc_name account) remainingMinutes util
                                  (remainingQuota util))]))
              else (False, w, [])))"

section \<open>The update pass\<close>

text \<open>
  \<^verbatim>\<open>String.prototype.split(' ')\<close> and \<^verbatim>\<open>trim\<close> (on the ASCII white space; a
  string that holds one of the two scope names is not blank in any case).
\<close>

fun splitAcc :: "char \<Rightarrow> string \<Rightarrow> string \<Rightarrow> string list" where
  "splitAcc c acc [] = [rev acc]"
| "splitAcc c acc (x # xs) =
     (if x = c then rev acc # splitAcc c [] xs else splitAcc c (x # acc) xs)"

definition js_split :: "char \<Rightarrow> string \<Rightarrow> string list" where
  "js_split c s = splitAcc c [] s"

definition js_space :: "char \<Rightarrow> bool" where
  "js_space c = (c \<in> set [CHR '' '', CHR 0x09, CHR 0x0A, CHR 0x0B, CHR 0x0C, CHR 0x0D])"

definition js_trim :: "string \<Rightarrow> string" where
  "js_trim s = rev (dropWhile js_space (rev (dropWhile js_space s)))"

definition scopeList :: "account \<Rightarrow> string list" where
  "scopeList account =
     (case scopes account of
        None \<Rightarrow> []
      | Some s \<Rightarrow> (if s \<noteq> [] \<and> js_trim s \<noteq> [] then js_split CHR '' '' s else []))"

definition isOAuth :: "account \<Rightarrow> bool" where
  "isOAuth account =
     (''user:profile'' \<in> set (scopeList account) \<and> ''user:inference'' \<in> set (scopeList account))"

record counters =
  successCount :: nat
  skipCount :: nat
  initCount :: nat
  failureCount :: nat

definition noCounts :: counters where
  "noCounts = \<lparr>successCount = 0, skipCount = 0, initCount = 0, failureCount = 0\<rparr>"

text \<open>
  The inner \<^verbatim>\<open>try\<close> of the loop body (lines 76 to 107), with the counters it
  leaves. An exception of the fetch or of the store goes to its handler.
\<close>

definition refreshAccount ::
  "'w env \<Rightarrow> account \<Rightarrow> counters \<Rightarrow> 'w \<Rightarrow> counters \<times> 'w \<times> event list" where
  "refreshAccount env account c w =
     (case fetchOAuthUsage env (acc_id account) w of
        (Inl e, w1) \<Rightarrow>
          (c\<lparr>failureCount := failureCount c + 1\<rparr>, w1,
           [Call (FetchUsage (acc_id account)),
            Log Warn (UpdateFailed (acc_name account) (message_of e))])
      | (Inr None, w1) \<Rightarrow>
          (c\<lparr>failureCount := failureCount c + 1\<rparr>, w1,
           [Call (FetchUsage (acc_id account)), Log Warn (NoUsageData (acc_name account))])
      | (Inr (Some usageData), w1) \<Rightarrow>
          (case updateClaudeUsageSnapshot env (acc_id account) usageData w1 of
             (Inl e, w2) \<Rightarrow>
               (c\<lparr>failureCount := failureCount c + 1\<rparr>, w2,
                [Call (FetchUsage (acc_id account)),
                 Call (PutSnapshot (acc_id account) usageData),
                 Log Warn (UpdateFailed (acc_name account) (message_of e))])
           | (Inr u, w2) \<Rightarrow>
               (case five_hour usageData of
                  None \<Rightarrow>
                    (c\<lparr>successCount := successCount c + 1\<rparr>, w2,
                     [Call (FetchUsage (acc_id account)),
                      Call (PutSnapshot (acc_id account) usageData),
                      Log Debug (UsageUpdated (acc_name account))])
                | Some fh \<Rightarrow>
                    (case checkAndResetFiveHourWindow env account fh w2 of
                       (needsInit, w3, evs) \<Rightarrow>
                         ((if needsInit then c\<lparr>initCount := initCount c + 1\<rparr> else c)
                            \<lparr>successCount := successCount c + 1\<rparr>,
                          w3,
                          [Call (FetchUsage (acc_id account)),
                           Call (PutSnapshot (acc_id account) usageData)]
                          @ evs @ [Log Debug (UsageUpdated (acc_name account))])))))"

text \<open>
  The body of the loop of \<^verbatim>\<open>updateAllAccountsUsage\<close>: the two \<^verbatim>\<open>continue\<close>
  statements leave it before the delay of line 110.
\<close>

definition updateAccount ::
  "'w env \<Rightarrow> account \<Rightarrow> counters \<Rightarrow> 'w \<Rightarrow> counters \<times> 'w \<times> event list" where
  "updateAccount env account c w =
     (if isActive account \<noteq> Some ''true'' then (c\<lparr>skipCount := skipCount c + 1\<rparr>, w, [])
      else if \<not> isOAuth account then (c\<lparr>skipCount := skipCount c + 1\<rparr>, w, [])
      else
        (case refreshAccount env account c w of
           (c1, w1, evs) \<Rightarrow> (c1, delay env 1000 w1, evs @ [Sleep 1000])))"

fun updateLoop ::
  "'w env \<Rightarrow> account list \<Rightarrow> counters \<Rightarrow> 'w \<Rightarrow> counters \<times> 'w \<times> event list" where
  "updateLoop env [] c w = (c, w, [])"
| "updateLoop env (account # rest) c w =
     (case updateAccount env account c w of
        (c1, w1, evs1) \<Rightarrow>
          (case updateLoop env rest c1 w1 of
             (c2, w2, evs2) \<Rightarrow> (c2, w2, evs1 @ evs2)))"

text \<open>
  \<^verbatim>\<open>updateAllAccountsUsage\<close>. The function has no \<^verbatim>\<open>return\<close> statement and its
  handler swallows the exception of the enumeration, so its promise always resolves to
  \<^verbatim>\<open>undefined\<close>: the result is \<open>Inr ()\<close>.
\<close>

definition updateAllAccountsUsage :: "'w env \<Rightarrow> 'w \<Rightarrow> (error + unit) \<times> 'w \<times> event list" where
  "updateAllAccountsUsage env w =
     (case getAllClaudeAccounts env w of
        (Inl e, w1) \<Rightarrow>
          (Inr (), w1, [Log Info UpdateStarting, Call ListAccounts, Log Err (UpdateAllFailed e)])
      | (Inr accounts, w1) \<Rightarrow>
          (case updateLoop env accounts noCounts w1 of
             (c, w2, evs) \<Rightarrow>
               (Inr (), w2,
                [Log Info UpdateStarting, Call ListAccounts] @ evs
                @ [Log Info (UpdateCompleted (successCount c) (skipCount c) (initCount c)
                               (failureCount c) (length accounts))])))"

section \<open>The scheduler loop\<close>

text \<open>
  The two fields of the service object, and beside them the part of the JavaScript
  runtime that the claims about timers speak of: the timers that are armed (handle and
  delay), the next fresh handle, and the number of invocations of
  \<^verbatim>\<open>runAndScheduleNext\<close> that are awaiting their update pass.
\<close>

record service =
  isRunning :: bool
  monitorTimeout :: "nat option"
  armed :: "(nat \<times> int) list"
  nextHandle :: nat
  inFlight :: nat

definition initialService :: service where
  "initialService =
     \<lparr>isRunning = False, monitorTimeout = None, armed = [], nextHandle = 0, inFlight = 0\<rparr>"

definition setTimeout :: "int \<Rightarrow> service \<Rightarrow> nat \<times> service" where
  "setTimeout ms s =
     (nextHandle s, s\<lparr>armed := armed s @ [(nextHandle s, ms)], nextHandle := Suc (nextHandle s)\<rparr>)"

definition clearTimeout :: "nat \<Rightarrow> service \<Rightarrow> service" where
  "clearTimeout h s = s\<lparr>armed := filter (\<lambda>t. fst t \<noteq> h) (armed s)\<rparr>"

text \<open>
  An invocation of \<^verbatim>\<open>runAndScheduleNext\<close> runs up to its first \<^verbatim>\<open>await\<close> at
  once: the update pass logs its first line and issues the enumeration of the accounts.
\<close>

definition cycleStarts :: "event list" where
  "cycleStarts = [Log Info UpdateStarting, Call ListAccounts]"

text \<open>
  \<^verbatim>\<open>start\<close> calls \<^verbatim>\<open>runAndScheduleNext\<close> without awaiting it: the cycle has
  started and is in flight when \<^verbatim>\<open>start\<close> logs its last line and returns.
\<close>

definition start :: "service \<Rightarrow> service \<times> event list" where
  "start s =
     (if isRunning s then (s, [Log Warn AlreadyRunning])
      else (s\<lparr>isRunning := True, inFlight := Suc (inFlight s)\<rparr>,
            [Log Info Starting] @ cycleStarts @ [Log Success Started]))"

definition stop :: "service \<Rightarrow> service \<times> event list" where
  "stop s =
     (if \<not> isRunning s then (s, [Log Warn NotRunning])
      else
        ((case monitorTimeout s of
            None \<Rightarrow> s
          | Some h \<Rightarrow> (clearTimeout h s)\<lparr>monitorTimeout := None\<rparr>)\<lparr>isRunning := False\<rparr>,
         [Log Info ServiceStopped]))"

text \<open>Arming the next run: \<^verbatim>\<open>this.monitorTimeout = setTimeout(.., ms)\<close>.\<close>

definition armNext :: "int \<Rightarrow> service \<Rightarrow> service" where
  "armNext ms s = (case setTimeout ms s of (h, s1) \<Rightarrow> s1\<lparr>monitorTimeout := Some h\<rparr>)"

text \<open>
  \<^verbatim>\<open>runAndScheduleNext\<close> as a whole, from the service as it is when the two awaited
  calls have returned (they do not read it). Both calls always resolve, so the handler is the
  branch of an \<open>Inl\<close> that they never produce.
\<close>

definition runAndScheduleNext :: "'w env \<Rightarrow> service \<Rightarrow> 'w \<Rightarrow> service \<times> 'w \<times> event list" where
  "runAndScheduleNext env s w =
     (case updateAllAccountsUsage env w of
        (Inl e, w1, evs1) \<Rightarrow>
          (if isRunning s then armNext BASE_INTERVAL s else s, w1,
           evs1 @ [Log Err (RunError e)])
      | (Inr u, w1, evs1) \<Rightarrow>
          (case calculateNextInterval env w1 of
             (Inl e, w2, evs2) \<Rightarrow>
               (if isRunning s then armNext BASE_INTERVAL s else s, w2,
                evs1 @ evs2 @ [Log Err (RunError e)])
           | (Inr nextInterval, w2, evs2) \<Rightarrow>
               (if isRunning s
                then (armNext nextInterval s, w2,
                      evs1 @ evs2
                      @ [Log Info (NextScheduled (clock env w2 + nextInterval)
                                     (js_round (of_int nextInterval / 60000)))])
                else (s, w2, evs1 @ evs2))))"

text \<open>
  What can happen to the service: a call of \<^verbatim>\<open>start\<close> or \<^verbatim>\<open>stop\<close>, a cycle in
  flight reaching its end, an armed timer firing (which starts a cycle and leaves its
  stale handle in \<^verbatim>\<open>monitorTimeout\<close>). The effects with which a cycle starts are
  emitted where it starts; the rest of the cycle is accounted for when it ends: the
  answer to its enumeration, what follows it, and the reading of the service, which
  comes after the last \<^verbatim>\<open>await\<close>. The calls that two cycles in flight make to the
  collaborators interleave in the program; nothing below depends on their order.
\<close>

datatype action = CallStart | CallStop | CycleCompletes | TimerFires nat

fun step :: "'w env \<Rightarrow> service \<times> 'w \<times> event list \<Rightarrow> action \<Rightarrow> service \<times> 'w \<times> event list" where
  "step env (s, w, tr) CallStart = (case start s of (s1, evs) \<Rightarrow> (s1, w, tr @ evs))"
| "step env (s, w, tr) CallStop = (case stop s of (s1, evs) \<Rightarrow> (s1, w, tr @ evs))"
| "step env (s, w, tr) CycleCompletes =
     (if inFlight s = 0 then (s, w, tr)
      else
        (case runAndScheduleNext env (s\<lparr>inFlight := inFlight s - 1\<rparr>) w of
           (s1, w1, evs) \<Rightarrow> (s1, w1, tr @ drop (length cycleStarts) evs)))"
| "step env (s, w, tr) (TimerFires h) =
     (if h \<in> fst ` set (armed s)
      then (s\<lparr>armed := filter (\<lambda>t. fst t \<noteq> h) (armed s), inFlight := Suc (inFlight s)\<rparr>, w,
            tr @ cycleStarts)
      else (s, w, tr))"

definition run :: "'w env \<Rightarrow> action list \<Rightarrow> service \<times> 'w \<times> event list \<Rightarrow> service \<times> 'w \<times> event list" where
  "run env actions st = foldl (step env) st actions"

section \<open>What the specification says\<close>

text \<open>
  The planner in the words of the specification: for every active account's persisted
  snapshot and each of the two windows present with a reset time, the trigger time is
  the reset time plus five minutes; the candidates are the trigger times after now.
\<close>

definition present :: "'a option \<Rightarrow> 'a list" where
  "present x = (case x of None \<Rightarrow> [] | Some v \<Rightarrow> [v])"

definition known_reset :: "usage_window \<Rightarrow> int list" where
  "known_reset uw = (case resets_at uw of At t \<Rightarrow> [t] | _ \<Rightarrow> [])"

definition spec_candidates ::
  "account list \<Rightarrow> (string \<Rightarrow> usage_snapshot option) \<Rightarrow> int \<Rightarrow> schedule_entry list" where
  "spec_candidates accounts store now =
     [\<lparr>accountName = acc_name a, resetTime = t + 5 * 60 * 1000, windowType = wt\<rparr>.
        a \<leftarrow> accounts, isActive a = Some ''true'',
        snap \<leftarrow> present (store (acc_id a)),
        (wt, win) \<leftarrow> [(W5h, five_hour snap), (W7d, seven_day snap)],
        uw \<leftarrow> present win,
        t \<leftarrow> known_reset uw,
        t + 5 * 60 * 1000 > now]"

text \<open>
  With no candidate the base interval (20 minutes); otherwise the minimum trigger time,
  and if it is less than the base interval away, that distance but at least one minute.
\<close>

definition nextInterval_spec :: "schedule_entry list \<Rightarrow> int \<Rightarrow> int" where
  "nextInterval_spec candidates now =
     (if candidates = [] then 20 * 60 * 1000
      else
        (let triggerTime = Min (resetTime ` set candidates)
         in if triggerTime - now < 20 * 60 * 1000
            then max (triggerTime - now) (1 * 60 * 1000)
            else 20 * 60 * 1000))"

text \<open>
  What happened to an account in an update pass, read from the answers of the
  collaborators: skipped as ineligible, failed (the fetch threw or returned nothing, or
  the store threw), or refreshed, with or without an initialization by the probe.
\<close>

datatype outcome = Skipped | Failed | Refreshed bool

definition account_outcome :: "'w env \<Rightarrow> account \<Rightarrow> 'w \<Rightarrow> outcome" where
  "account_outcome env a w =
     (if isActive a \<noteq> Some ''true'' \<or> \<not> isOAuth a then Skipped
      else
        (case fetchOAuthUsage env (acc_id a) w of
           (Inl e, w1) \<Rightarrow> Failed
         | (Inr None, w1) \<Rightarrow> Failed
         | (Inr (Some u), w1) \<Rightarrow>
             (case updateClaudeUsageSnapshot env (acc_id a) u w1 of
                (Inl e, w2) \<Rightarrow> Failed
              | (Inr x, w2) \<Rightarrow>
                  Refreshed
                    (case five_hour u of
                       None \<Rightarrow> False
                     | Some fh \<Rightarrow> fst (checkAndResetFiveHourWindow env a fh w2)))))"

text \<open>The outcomes of the accounts of a pass, each in the world its predecessors left.\<close>

fun pass_outcomes :: "'w env \<Rightarrow> account list \<Rightarrow> 'w \<Rightarrow> outcome list" where
  "pass_outcomes env [] w = []"
| "pass_outcomes env (a # rest) w =
     account_outcome env a w # pass_outcomes env rest (fst (snd (updateAccount env a noCounts w)))"

fun refreshed :: "outcome \<Rightarrow> bool" where
  "refreshed (Refreshed b) = True"
| "refreshed other = False"

text \<open>The counter that an outcome moves.\<close>

fun count_outcome :: "outcome \<Rightarrow> counters \<Rightarrow> counters" where
  "count_outcome Skipped c = c\<lparr>skipCount := skipCount c + 1\<rparr>"
| "count_outcome Failed c = c\<lparr>failureCount := failureCount c + 1\<rparr>"
| "count_outcome (Refreshed b) c =
     (if b then c\<lparr>initCount := initCount c + 1\<rparr> else c)\<lparr>successCount := successCount c + 1\<rparr>"

text \<open>The accounts that the service tracks: active, with both scopes.\<close>

definition eligible :: "account \<Rightarrow> bool" where
  "eligible a = (isActive a = Some ''true'' \<and> isOAuth a)"

text \<open>
  The re-fetched usage shows the five-hour window activated: it has the window, and the
  window has a \<^verbatim>\<open>resets_at\<close>.
\<close>

definition activated :: "usage_snapshot option \<Rightarrow> bool" where
  "activated newUsage =
     (case newUsage of
        None \<Rightarrow> False
      | Some u \<Rightarrow> (case five_hour u of None \<Rightarrow> False | Some fh \<Rightarrow> resets_at fh \<noteq> Absent))"

text \<open>The effects of a prober that has sent its request.\<close>

definition probe_sent_events :: "account \<Rightarrow> string \<Rightarrow> string option \<Rightarrow> event list" where
  "probe_sent_events a token proxy =
     [Log Info (Initializing (acc_name a)), Call (GetToken (acc_id a)),
      Call (GetProxy (acc_id a)), Call (SendProbe (probeRequest a token proxy))]"

text \<open>Readings of an event list.\<close>

fun probe_started :: "event \<Rightarrow> bool" where
  "probe_started (Log Info (Initializing n)) = True"
| "probe_started e = False"

fun remaining_time_log :: "event \<Rightarrow> bool" where
  "remaining_time_log (Log l (WindowExpires n m u q)) = True"
| "remaining_time_log e = False"

fun probe_sent :: "event \<Rightarrow> bool" where
  "probe_sent (Call (SendProbe r)) = True"
| "probe_sent e = False"


section \<open>Concrete collaborators\<close>

text \<open>
  Collaborators over a world that is the clock in milliseconds: no account, no snapshot,
  no token; every call succeeds. The instances below change single fields.
\<close>

definition quiet_env :: "int env" where
  "quiet_env =
     \<lparr>getAllClaudeAccounts = (\<lambda>w. (Inr [], w)),
      getClaudeUsageSnapshot = (\<lambda>i w. (Inr None, w)),
      updateClaudeUsageSnapshot = (\<lambda>i s w. (Inr (), w)),
      fetchOAuthUsage = (\<lambda>i w. (Inr None, w)),
      getValidAccessToken = (\<lambda>i w. (Inr None, w)),
      getProxyAgent = (\<lambda>i w. (Inr None, w)),
      makeClaudeRequest = (\<lambda>r w. (Inr \<lparr>statusCode = 200, body = ''{}''\<rparr>, w)),
      parseTokens = (\<lambda>b. Inr (8, 1)),
      clock = (\<lambda>w. w),
      delay = (\<lambda>ms w. w + ms)\<rparr>"

definition oauth_account :: "string \<Rightarrow> account" where
  "oauth_account i =
     \<lparr>acc_id = i, acc_name = i, isActive = Some ''true'',
      scopes = Some ''user:profile user:inference''\<rparr>"

definition window_at :: "int \<Rightarrow> usage_window" where
  "window_at t = \<lparr>resets_at = At t, utilization = Some (1 / 2)\<rparr>"

definition planner_store :: "string \<Rightarrow> usage_snapshot option" where
  "planner_store i =
     (if i = ''a1''
      then Some \<lparr>five_hour = Some (window_at 600000), seven_day = Some (window_at 900000)\<rparr>
      else None)"

definition planner_env :: "int env" where
  "planner_env =
     quiet_env\<lparr>getAllClaudeAccounts := (\<lambda>w. (Inr [oauth_account ''a1''], w)),
               getClaudeUsageSnapshot := (\<lambda>i w. (Inr (planner_store i), w))\<rparr>"

definition active_snapshot :: usage_snapshot where
  "active_snapshot = \<lparr>five_hour = Some (window_at 18000000), seven_day = None\<rparr>"

text \<open>A token is available and the re-fetched usage shows an active window.\<close>

definition probe_env :: "int env" where
  "probe_env =
     quiet_env\<lparr>getValidAccessToken := (\<lambda>i w. (Inr (Some ''token''), w)),
               fetchOAuthUsage := (\<lambda>i w. (Inr (Some active_snapshot), w))\<rparr>"

definition inactive_account :: "string \<Rightarrow> account" where
  "inactive_account i =
     \<lparr>acc_id = i, acc_name = i, isActive = Some ''false'',
      scopes = Some ''user:profile user:inference''\<rparr>"

text \<open>Three eligible accounts; the fetch of the second throws.\<close>

definition three_env :: "int env" where
  "three_env =
     quiet_env\<lparr>getAllClaudeAccounts :=
                 (\<lambda>w. (Inr [oauth_account ''a1'', oauth_account ''a2'', oauth_account ''a3''], w)),
               fetchOAuthUsage :=
                 (\<lambda>i w. if i = ''a2'' then (Inl (Error ''timeout''), w)
                         else (Inr (Some active_snapshot), w))\<rparr>"

text \<open>One account, which is inactive.\<close>

definition skip_env :: "int env" where
  "skip_env = quiet_env\<lparr>getAllClaudeAccounts := (\<lambda>w. (Inr [inactive_account ''a0''], w))\<rparr>"






section \<open>Properties\<close>

subsection \<open>Doubles\<close>

lemma round_even_near: "\<bar>of_int (round_even r) - r\<bar> \<le> 1 / 2"
proof -
  have "of_int \<lfloor>r\<rfloor> \<le> r" "r < of_int \<lfloor>r\<rfloor> + 1" by linarith+
  then show ?thesis by (auto simp add: round_even_def Let_def)
qed

lemma expo_le:
  assumes "x \<noteq> 0"
  shows "2 powi (expo x) \<le> \<bar>x\<bar>"
proof -
  obtain p q where pq: "quotient_of \<bar>x\<bar> = (p, q)" by (cases "quotient_of \<bar>x\<bar>") auto
  have q: "0 < q" using pq by (rule quotient_of_denom_pos)
  have x: "\<bar>x\<bar> = of_int p / of_int q" using pq by (rule quotient_of_div)
  have "0 < \<bar>x\<bar>" using assms by simp
  then have p: "0 < p" using x q by (simp add: zero_less_divide_iff)
  let ?d = "bitlen p - bitlen q"
  have bp: "1 \<le> bitlen p" using p bitlen_eq_zero_iff[of p] bitlen_nonneg[of p] by linarith
  have bq: "1 \<le> bitlen q" using q bitlen_eq_zero_iff[of q] bitlen_nonneg[of q] by linarith
  have lp: "(2::rat) powi (bitlen p - 1) \<le> of_int p"
  proof -
    have "2 ^ nat (bitlen p - 1) \<le> p" using bitlen_bounds[OF p] by simp
    then have "(of_int (2 ^ nat (bitlen p - 1)) :: rat) \<le> of_int p" by (simp only: of_int_le_iff)
    then show ?thesis using bp by (simp add: power_int_def)
  qed
  have uq: "of_int q \<le> (2::rat) powi (bitlen q)"
  proof -
    have "q < 2 ^ nat (bitlen q)" using bitlen_bounds[OF q] by simp
    then have "(of_int q :: rat) < of_int (2 ^ nat (bitlen q))" by (simp only: of_int_less_iff)
    then show ?thesis using bq by (simp add: power_int_def)
  qed
  have low: "(2::rat) powi (?d - 1) \<le> \<bar>x\<bar>"
  proof -
    have e: "(2::rat) powi (?d - 1) = 2 powi (bitlen p - 1) / 2 powi (bitlen q)"
      by (simp add: power_int_diff)
    have "2 powi (bitlen p - 1) / 2 powi (bitlen q) \<le> of_int p / (2::rat) powi (bitlen q)"
      using lp by (simp add: divide_right_mono)
    also have "\<dots> \<le> of_int p / of_int q"
      using uq p q by (simp add: frac_le)
    finally show ?thesis using e x by simp
  qed
  show ?thesis using pq low by (simp add: expo_def Let_def)
qed

lemma expo_less:
  assumes "x \<noteq> 0" and "\<bar>x\<bar> < 2 powi k"
  shows "expo x < k"
proof (rule ccontr)
  assume "\<not> expo x < k"
  then have "k \<le> expo x" by simp
  then have "(2::rat) powi k \<le> 2 powi (expo x)" by (simp add: power_int_increasing)
  then show False using expo_le[OF assms(1)] assms(2) by linarith
qed

lemma fl_near: "\<bar>fl x - x\<bar> \<le> 2 powi (ulp_exp x) / 2"
proof (cases "x = 0")
  case True
  then show ?thesis by (simp add: fl_def)
next
  case False
  let ?s = "(2::rat) powi (ulp_exp x)"
  have s: "0 < ?s" by (simp add: zero_less_power_int)
  have "fl x - x = (of_int (round_even (x / ?s)) - x / ?s) * ?s"
    using False s by (simp add: fl_def algebra_simps)
  then have "\<bar>fl x - x\<bar> = \<bar>of_int (round_even (x / ?s)) - x / ?s\<bar> * ?s"
    using s by (simp add: abs_mult)
  also have "\<dots> \<le> (1 / 2) * ?s"
    using round_even_near[of "x / ?s"] s by (simp add: mult_right_mono)
  finally show ?thesis by simp
qed

lemma fl_near_below:
  assumes "\<bar>x\<bar> < 2 powi k" and "- 1021 \<le> k"
  shows "\<bar>fl x - x\<bar> \<le> 2 powi (k - 54)"
proof (cases "x = 0")
  case True
  then show ?thesis by (simp add: fl_def)
next
  case False
  have "expo x < k" using False assms(1) by (rule expo_less)
  then have "ulp_exp x \<le> k - 53" using assms(2) by (simp add: ulp_exp_def)
  then have "(2::rat) powi (ulp_exp x) \<le> 2 powi (k - 53)" by (simp add: power_int_increasing)
  moreover have "(2::rat) powi (k - 53) / 2 = 2 powi (k - 54)"
    by (simp add: power_int_diff)
  ultimately show ?thesis using fl_near[of x] by linarith
qed

lemma quota_close:
  assumes "0 \<le> u" and "u \<le> 1"
  shows "\<bar>fl (fl (1 - u) * 100) - 100 * (1 - u)\<bar> < 1 / 4 \<and> \<not> overflows (fl (1 - u) * 100)"
proof -
  define x where "x = 1 - u"
  define y where "y = fl x * 100"
  define c where "c = (2::rat) powi (- 53)"
  define d where "d = (2::rat) powi (- 47)"
  have c: "c \<le> 1 / 1000000" and d: "d \<le> 1 / 1000000"
    by (simp_all add: c_def d_def power_int_def power_one_over field_simps)
  have x: "\<bar>x\<bar> < 2 powi 1" using assms by (simp add: x_def)
  have x1: "\<bar>x\<bar> \<le> 1" using assms by (simp add: x_def)
  have e1: "\<bar>fl x - x\<bar> \<le> c" using fl_near_below[OF x] by (simp add: c_def)
  have yx: "\<bar>y - 100 * x\<bar> \<le> 100 * c" using e1 unfolding y_def by linarith
  have "\<bar>y\<bar> < 128" using yx c x1 by linarith
  then have y: "\<bar>y\<bar> < 2 powi 7" by simp
  have e2: "\<bar>fl y - y\<bar> \<le> d" using fl_near_below[OF y] by (simp add: d_def)
  have "\<bar>fl y - 100 * x\<bar> < 1 / 4" using e2 yx c d by linarith
  moreover have "\<not> overflows y" using \<open>\<bar>y\<bar> < 128\<close> by (simp add: overflows_def)
  ultimately show ?thesis by (simp add: x_def y_def)
qed

lemma js_round_close:
  assumes "\<bar>a - b\<bar> < 1"
  shows "\<bar>js_round a - js_round b\<bar> \<le> 1"
proof -
  have "of_int \<lfloor>a + 1 / 2\<rfloor> \<le> a + 1 / 2" "a + 1 / 2 < of_int \<lfloor>a + 1 / 2\<rfloor> + 1"
    "of_int \<lfloor>b + 1 / 2\<rfloor> \<le> b + 1 / 2" "b + 1 / 2 < of_int \<lfloor>b + 1 / 2\<rfloor> + 1"
    by linarith+
  then have "(of_int \<lfloor>a + 1 / 2\<rfloor> :: rat) - of_int \<lfloor>b + 1 / 2\<rfloor> < 2"
    "(of_int \<lfloor>b + 1 / 2\<rfloor> :: rat) - of_int \<lfloor>a + 1 / 2\<rfloor> < 2"
    using assms by linarith+
  then have "\<lfloor>a + 1 / 2\<rfloor> - \<lfloor>b + 1 / 2\<rfloor> < 2" "\<lfloor>b + 1 / 2\<rfloor> - \<lfloor>a + 1 / 2\<rfloor> < 2"
    by (metis of_int_diff of_int_less_iff of_int_numeral)+
  then show ?thesis by (simp add: js_round_def)
qed

lemma remainingQuota_fraction:
  assumes "0 \<le> u" and "u \<le> 1"
  shows "remainingQuota u = Rounded (js_round (fl (fl (1 - u) * 100)))"
    and "\<bar>js_round (fl (fl (1 - u) * 100)) - js_round (100 * (1 - u))\<bar> \<le> 1"
proof -
  show "remainingQuota u = Rounded (js_round (fl (fl (1 - u) * 100)))"
    using quota_close[OF assms] by (simp add: remainingQuota_def Let_def)
  have "\<bar>fl (fl (1 - u) * 100) - 100 * (1 - u)\<bar> < 1" using quota_close[OF assms] by linarith
  then show "\<bar>js_round (fl (fl (1 - u) * 100)) - js_round (100 * (1 - u))\<bar> \<le> 1"
    by (rule js_round_close)
qed

lemma remainingQuota_half: "remainingQuota (1 / 2) = Rounded 50"
  by code_simp

lemma remainingQuota_0_8: "remainingQuota (fl (4 / 5)) = Rounded 20"
  by code_simp

lemma remainingQuota_0_425: "remainingQuota (fl (17 / 40)) = Rounded 57"
  by code_simp

lemma exact_quota_0_425:
  "js_round (100 * (1 - fl (425 / 1000))) = 58" "js_round (100 * (1 - 425 / 1000)) = 58"
  by code_simp+

subsection \<open>The interval planner\<close>

lemma floor_rat_div_numeral:
  "\<lfloor>(numeral a :: rat) / numeral b\<rfloor> = numeral a div numeral b"
  using floor_divide_of_int_eq[of "numeral a" "numeral b", where ?'a = rat] by simp

lemma hd_sort_key_in: "xs \<noteq> [] \<Longrightarrow> hd (sort_key f xs) \<in> set xs"
proof -
  assume "xs \<noteq> []"
  then have "sort_key f xs \<noteq> []" by (metis length_0_conv length_sort)
  then have "hd (sort_key f xs) \<in> set (sort_key f xs)" by (rule hd_in_set)
  then show ?thesis by simp
qed

lemma hd_sort_key_least: "x \<in> set xs \<Longrightarrow> f (hd (sort_key f xs)) \<le> f x"
proof -
  assume x: "x \<in> set xs"
  then have "set (sort_key f xs) \<noteq> {}" by auto
  then obtain y ys where ys: "sort_key f xs = y # ys" by (cases "sort_key f xs") auto
  have "sorted (map f (y # ys))" using sorted_sort_key[of f xs] ys by simp
  moreover have "x \<in> set (y # ys)" using x ys set_sort[of f xs] by simp
  ultimately show ?thesis using ys by auto
qed

lemma hd_sort_key_Min:
  assumes "xs \<noteq> []"
  shows "f (hd (sort_key f xs)) = Min (f ` set xs)"
proof (rule sym, rule Min_eqI)
  show "finite (f ` set xs)" by simp
  show "\<And>y. y \<in> f ` set xs \<Longrightarrow> f (hd (sort_key f xs)) \<le> y"
    using hd_sort_key_least by fastforce
  show "f (hd (sort_key f xs)) \<in> f ` set xs"
    using hd_sort_key_in[OF assms] by blast
qed

lemma window_entry_spec:
  "window_entry name wt now win =
     [\<lparr>accountName = name, resetTime = t + 5 * 60 * 1000, windowType = wt\<rparr>.
        uw \<leftarrow> present win, t \<leftarrow> known_reset uw, t + 5 * 60 * 1000 > now]"
  by (simp add: window_entry_def present_def known_reset_def AFTER_RESET_MINUTES_def
      split: option.splits resets_at.splits)

lemma spec_candidates_Nil: "spec_candidates [] store now = []"
  by (simp add: spec_candidates_def)

lemma spec_candidates_Cons:
  "spec_candidates (a # rest) store now =
     (if isActive a = Some ''true''
      then (case store (acc_id a) of
              None \<Rightarrow> []
            | Some snap \<Rightarrow> window_entry (acc_name a) W5h now (five_hour snap)
                         @ window_entry (acc_name a) W7d now (seven_day snap))
      else [])
     @ spec_candidates rest store now"
  by (simp add: spec_candidates_def window_entry_spec present_def split: option.splits)

lemma collectResetTimes_store:
  assumes "\<And>i w'. fst (getClaudeUsageSnapshot env i w') = Inr (store i)"
  shows "fst (collectResetTimes env now accounts w) = Inr (spec_candidates accounts store now)"
proof (induction accounts arbitrary: w)
  case Nil
  show ?case by (simp add: spec_candidates_Nil)
next
  case (Cons a rest)
  show ?case
  proof (cases "isActive a = Some ''true''")
    case False
    then show ?thesis using Cons.IH[of w] by (simp add: spec_candidates_Cons)
  next
    case True
    obtain r w1 where g: "getClaudeUsageSnapshot env (acc_id a) w = (r, w1)"
      by (cases "getClaudeUsageSnapshot env (acc_id a) w") auto
    have r: "r = Inr (store (acc_id a))" using assms[of "acc_id a" w] g by simp
    obtain r2 w2 evs where c: "collectResetTimes env now rest w1 = (r2, w2, evs)"
      by (cases "collectResetTimes env now rest w1") auto
    have r2: "r2 = Inr (spec_candidates rest store now)" using Cons.IH[of w1] c by simp
    show ?thesis using True g r c r2
      by (simp add: spec_candidates_Cons split: option.splits)
  qed
qed

lemma chooseInterval_spec: "fst (chooseInterval now cands) = nextInterval_spec cands now"
  by (simp add: chooseInterval_def nextInterval_spec_def Let_def BASE_INTERVAL_def hd_sort_key_Min[where f = resetTime])

lemma chooseInterval_log:
  assumes "cands \<noteq> []" and "Min (resetTime ` set cands) - now < BASE_INTERVAL"
  shows "\<exists>e \<in> set cands. (\<forall>e' \<in> set cands. resetTime e \<le> resetTime e') \<and>
           snd (chooseInterval now cands) =
             [Log Info (NextCheck (accountName e) (windowType e)
                          (js_round (of_int (resetTime e - now) / 60000)))]"
proof -
  let ?n = "hd (sort_key resetTime cands)"
  have "?n \<in> set cands" using assms(1) by (rule hd_sort_key_in)
  moreover have "\<forall>e' \<in> set cands. resetTime ?n \<le> resetTime e'"
    using hd_sort_key_least[where f = resetTime and xs = cands] by blast
  moreover have "snd (chooseInterval now cands) =
             [Log Info (NextCheck (accountName ?n) (windowType ?n)
                          (js_round (of_int (resetTime ?n - now) / 60000)))]"
  proof -
    have "resetTime ?n = Min (resetTime ` set cands)"
      using assms(1) by (rule hd_sort_key_Min)
    then have "resetTime ?n - now < BASE_INTERVAL" using assms(2) by simp
    then show ?thesis using assms(1) by (simp add: chooseInterval_def Let_def)
  qed
  ultimately show ?thesis by blast
qed

text \<open>
  Claim C1. When the enumeration of the accounts succeeds and the snapshot reads answer
  from a store, \<^verbatim>\<open>calculateNextInterval\<close> returns what the planner of the
  specification returns on that store: the base interval when no trigger time (reset time
  plus five minutes) of an active account lies after now, else the distance to the minimum
  trigger time, floored at one minute, when that distance is under the base interval, else
  the base interval. When it returns such a distance, the line it logs names a candidate
  whose trigger time is minimal, so of two candidates \<open>T1 < T2\<close> the one of \<open>T1\<close>.
\<close>

theorem calculateNextInterval_planner:
  assumes "getAllClaudeAccounts env w = (Inr accounts, w1)"
    and "\<And>i w'. fst (getClaudeUsageSnapshot env i w') = Inr (store i)"
  shows "fst (calculateNextInterval env w) =
           Inr (nextInterval_spec (spec_candidates accounts store (clock env w1)) (clock env w1))
         \<and> (spec_candidates accounts store (clock env w1) \<noteq> [] \<and>
            Min (resetTime ` set (spec_candidates accounts store (clock env w1))) - clock env w1
              < BASE_INTERVAL \<longrightarrow>
            (\<exists>e \<in> set (spec_candidates accounts store (clock env w1)).
               (\<forall>e' \<in> set (spec_candidates accounts store (clock env w1)).
                  resetTime e \<le> resetTime e') \<and>
               last (snd (snd (calculateNextInterval env w))) =
                 Log Info (NextCheck (accountName e) (windowType e)
                            (js_round (of_int (resetTime e - clock env w1) / 60000)))))"
proof -
  let ?now = "clock env w1"
  let ?c = "spec_candidates accounts store ?now"
  obtain r w2 evs where c: "collectResetTimes env ?now accounts w1 = (r, w2, evs)"
    by (cases "collectResetTimes env ?now accounts w1") auto
  have r: "r = Inr ?c" using collectResetTimes_store[of env store ?now accounts w1] assms(2) c by simp
  obtain iv logs where ch: "chooseInterval ?now ?c = (iv, logs)"
    by (cases "chooseInterval ?now ?c") auto
  have res: "calculateNextInterval env w = (Inr iv, w2, Call ListAccounts # evs @ logs)"
    using assms(1) c r ch by (simp add: calculateNextInterval_def)
  have iv: "iv = nextInterval_spec ?c ?now" using chooseInterval_spec[of ?now ?c] ch by simp
  have sel: "?c \<noteq> [] \<and> Min (resetTime ` set ?c) - ?now < BASE_INTERVAL \<Longrightarrow>
     \<exists>e \<in> set ?c. (\<forall>e' \<in> set ?c. resetTime e \<le> resetTime e') \<and>
       last (snd (snd (calculateNextInterval env w))) =
         Log Info (NextCheck (accountName e) (windowType e)
                    (js_round (of_int (resetTime e - ?now) / 60000)))"
  proof -
    assume a: "?c \<noteq> [] \<and> Min (resetTime ` set ?c) - ?now < BASE_INTERVAL"
    from chooseInterval_log[of ?c ?now] a ch
    obtain e where e: "e \<in> set ?c" "\<forall>e' \<in> set ?c. resetTime e \<le> resetTime e'"
      "logs = [Log Info (NextCheck (accountName e) (windowType e)
                          (js_round (of_int (resetTime e - ?now) / 60000)))]"
      by auto
    have "last (snd (snd (calculateNextInterval env w))) =
         Log Info (NextCheck (accountName e) (windowType e)
                    (js_round (of_int (resetTime e - ?now) / 60000)))"
      using res e(3) by simp
    then show ?thesis using e(1,2) by blast
  qed
  show ?thesis using res iv sel by simp
qed


lemma planner_candidates_eval:
  "spec_candidates [oauth_account ''a1''] planner_store 0 =
     [\<lparr>accountName = ''a1'', resetTime = 900000, windowType = W5h\<rparr>,
      \<lparr>accountName = ''a1'', resetTime = 1200000, windowType = W7d\<rparr>]"
  by (simp add: spec_candidates_def oauth_account_def planner_store_def present_def
      known_reset_def window_at_def)

theorem calculateNextInterval_planner_witness:
  "getAllClaudeAccounts planner_env 0 = (Inr [oauth_account ''a1''], 0)
   \<and> spec_candidates [oauth_account ''a1''] planner_store (clock planner_env 0) \<noteq> []
   \<and> fst (calculateNextInterval planner_env 0) = Inr 900000
   \<and> last (snd (snd (calculateNextInterval planner_env 0))) = Log Info (NextCheck ''a1'' W5h 15)"
proof -
  have enum: "getAllClaudeAccounts planner_env 0 = (Inr [oauth_account ''a1''], 0)"
    by (simp add: planner_env_def quiet_env_def)
  have reads: "\<And>i w'. fst (getClaudeUsageSnapshot planner_env i w') = Inr (planner_store i)"
    by (simp add: planner_env_def quiet_env_def)
  have clk: "clock planner_env 0 = 0" by (simp add: planner_env_def quiet_env_def)
  note t = calculateNextInterval_planner[OF enum reads, unfolded clk planner_candidates_eval]
  have m: "Min (resetTime ` set [\<lparr>accountName = ''a1'', resetTime = 900000, windowType = W5h\<rparr>,
      \<lparr>accountName = ''a1'', resetTime = 1200000, windowType = W7d\<rparr>]) = 900000"
    by simp
  have r: "fst (calculateNextInterval planner_env 0) = Inr 900000"
    using t m by (simp add: nextInterval_spec_def)
  have l: "last (snd (snd (calculateNextInterval planner_env 0))) = Log Info (NextCheck ''a1'' W5h 15)"
    using t m by (auto simp add: BASE_INTERVAL_def js_round_def floor_rat_div_numeral)
  show ?thesis using enum clk planner_candidates_eval r l by simp
qed

subsection \<open>The dormant-window check and the prober\<close>

lemma verifyActivation_quiet:
  "filter probe_started (snd (snd (verifyActivation env a w))) = []"
  "filter remaining_time_log (snd (snd (verifyActivation env a w))) = []"
  "filter probe_sent (snd (snd (verifyActivation env a w))) = []"
  by (simp_all add: verifyActivation_def Let_def
      split: prod.splits sum.splits option.splits resets_at.splits)

lemma tryInitialization_events:
  "length (filter probe_started (snd (snd (tryInitialization env a w)))) = 1"
  "filter remaining_time_log (snd (snd (tryInitialization env a w))) = []"
  "length (filter probe_sent (snd (snd (tryInitialization env a w)))) \<le> 1"
  by (simp_all add: tryInitialization_def split_beta verifyActivation_quiet
      split: sum.splits option.splits)

lemma trigger_events:
  "length (filter probe_started (snd (snd (triggerFiveHourInitialization env a w)))) = 1"
  "filter remaining_time_log (snd (snd (triggerFiveHourInitialization env a w))) = []"
  "length (filter probe_sent (snd (snd (triggerFiveHourInitialization env a w)))) \<le> 1"
  using tryInitialization_events[of env a w]
  by (auto simp add: triggerFiveHourInitialization_def split: prod.splits sum.splits)

text \<open>
  Claim C3. For a five-hour window whose \<^verbatim>\<open>resets_at\<close> is absent, the check returns
  the result of the prober and leaves the world the prober leaves; the prober is started
  exactly once (and sends at most one probe request), and no remaining-time line is
  logged.
\<close>

theorem checkWindow_dormant:
  assumes "resets_at fh = Absent"
  shows "fst (checkAndResetFiveHourWindow env a fh w) = fst (triggerFiveHourInitialization env a w)
    \<and> fst (snd (checkAndResetFiveHourWindow env a fh w))
        = fst (snd (triggerFiveHourInitialization env a w))
    \<and> length (filter probe_started (snd (snd (checkAndResetFiveHourWindow env a fh w)))) = 1
    \<and> length (filter probe_sent (snd (snd (checkAndResetFiveHourWindow env a fh w)))) \<le> 1
    \<and> filter remaining_time_log (snd (snd (checkAndResetFiveHourWindow env a fh w))) = []"
proof -
  obtain b w1 evs where t: "triggerFiveHourInitialization env a w = (b, w1, evs)"
    by (metis prod_cases3)
  have e: "length (filter probe_started evs) = 1" "filter remaining_time_log evs = []"
    "length (filter probe_sent evs) \<le> 1"
    using trigger_events[of env a w] t by simp_all
  show ?thesis using assms t e by (simp add: checkAndResetFiveHourWindow_def)
qed

theorem checkWindow_dormant_witness:
  "resets_at \<lparr>resets_at = Absent, utilization = None\<rparr> = Absent
   \<and> fst (checkAndResetFiveHourWindow quiet_env (oauth_account ''a1'')
            \<lparr>resets_at = Absent, utilization = None\<rparr> 0) = False
   \<and> length (filter probe_started
        (snd (snd (checkAndResetFiveHourWindow quiet_env (oauth_account ''a1'')
            \<lparr>resets_at = Absent, utilization = None\<rparr> 0)))) = 1"
proof -
  have h: "resets_at \<lparr>resets_at = Absent, utilization = None\<rparr> = Absent" by simp
  have t: "fst (triggerFiveHourInitialization quiet_env (oauth_account ''a1'') 0) = False"
    by (simp add: triggerFiveHourInitialization_def tryInitialization_def quiet_env_def)
  show ?thesis
    using checkWindow_dormant[OF h, of quiet_env "oauth_account ''a1''" 0] t by simp
qed

lemma checkWindow_At:
  assumes "resets_at fh = At t"
  shows "checkAndResetFiveHourWindow env a fh w =
     (if (t - clock env w) div 60000 \<le> 10
      then (False, w,
         [Log Info (WindowExpires (acc_name a) ((t - clock env w) div 60000)
            (case utilization fh of None \<Rightarrow> 0 | Some u \<Rightarrow> u)
            (remainingQuota (case utilization fh of None \<Rightarrow> 0 | Some u \<Rightarrow> u)))])
      else (False, w, []))"
  using assms by (simp add: checkAndResetFiveHourWindow_def Let_def RESET_THRESHOLD_MINUTES_def)

text \<open>
  Claim C4, as amended. For a window whose \<^verbatim>\<open>resets_at\<close> is the time \<open>t\<close>, with the
  remaining minutes \<open>(t - now) div 60000\<close> at most the threshold of 10, the check returns
  false, leaves the world as it is and emits one effect only: the log line with the
  remaining minutes and the remaining quota. The quota is \<^verbatim>\<open>Math.round\<close> of the
  product \<open>(1 - utilization) * 100\<close> as doubles compute it, difference and product each
  rounded to the nearest double; for a utilization between 0 and 1 it is an integer at
  most one away from \<open>100 * (1 - utilization)\<close> rounded. With the utilization 0.8 and a
  reset six minutes ahead the line shows 20 per cent.
\<close>

theorem checkWindow_impending:
  assumes "resets_at fh = At t"
    and "(t - clock env w) div (60 * 1000) \<le> RESET_THRESHOLD_MINUTES"
    and "util = (case utilization fh of None \<Rightarrow> 0 | Some u \<Rightarrow> u)"
  shows "checkAndResetFiveHourWindow env a fh w =
      (False, w,
         [Log Info (WindowExpires (acc_name a) ((t - clock env w) div (60 * 1000)) util
            (remainingQuota util))])
    \<and> (0 \<le> util \<and> util \<le> 1 \<longrightarrow>
         remainingQuota util = Rounded (js_round (fl (fl (1 - util) * 100)))
         \<and> \<bar>js_round (fl (fl (1 - util) * 100)) - js_round (100 * (1 - util))\<bar> \<le> 1)
    \<and> checkAndResetFiveHourWindow env a
         \<lparr>resets_at = At (clock env w + 6 * 60 * 1000), utilization = Some (fl (8 / 10))\<rparr> w =
       (False, w, [Log Info (WindowExpires (acc_name a) 6 (fl (8 / 10)) (Rounded 20))])"
proof -
  have "checkAndResetFiveHourWindow env a fh w =
      (False, w,
         [Log Info (WindowExpires (acc_name a) ((t - clock env w) div (60 * 1000)) util
            (remainingQuota util))])"
    using assms checkWindow_At[OF assms(1), of env a w]
    by (simp add: RESET_THRESHOLD_MINUTES_def)
  moreover have "0 \<le> util \<and> util \<le> 1 \<longrightarrow>
         remainingQuota util = Rounded (js_round (fl (fl (1 - util) * 100)))
         \<and> \<bar>js_round (fl (fl (1 - util) * 100)) - js_round (100 * (1 - util))\<bar> \<le> 1"
    using remainingQuota_fraction[of util] by blast
  moreover have "checkAndResetFiveHourWindow env a
         \<lparr>resets_at = At (clock env w + 6 * 60 * 1000), utilization = Some (fl (8 / 10))\<rparr> w =
       (False, w, [Log Info (WindowExpires (acc_name a) 6 (fl (8 / 10)) (Rounded 20))])"
    by (simp add: checkAndResetFiveHourWindow_def Let_def RESET_THRESHOLD_MINUTES_def
        remainingQuota_0_8)
  ultimately show ?thesis by blast
qed

theorem checkWindow_impending_witness:
  "resets_at (window_at 180000) = At 180000
   \<and> (180000 - clock quiet_env 0) div (60 * 1000) \<le> RESET_THRESHOLD_MINUTES
   \<and> (0::rat) \<le> 1 / 2 \<and> (1 / 2 :: rat) \<le> 1
   \<and> checkAndResetFiveHourWindow quiet_env (oauth_account ''a1'') (window_at 180000) 0 =
       (False, 0, [Log Info (WindowExpires ''a1'' 3 (1 / 2) (Rounded 50))])
   \<and> \<bar>js_round (fl (fl (1 - 1 / 2) * 100)) - js_round (100 * (1 - 1 / 2))\<bar> \<le> 1"
proof -
  have h1: "resets_at (window_at 180000) = At 180000" by (simp add: window_at_def)
  have h2: "(180000 - clock quiet_env 0) div (60 * 1000) \<le> RESET_THRESHOLD_MINUTES"
    by (simp add: quiet_env_def RESET_THRESHOLD_MINUTES_def)
  have h3: "1 / 2 = (case utilization (window_at 180000) of None \<Rightarrow> 0 | Some u \<Rightarrow> u)"
    by (simp add: window_at_def)
  have c: "clock quiet_env 0 = 0" by (simp add: quiet_env_def)
  have n: "acc_name (oauth_account ''a1'') = ''a1''" by (simp add: oauth_account_def)
  show ?thesis
    using checkWindow_impending[OF h1 h2 h3, of "oauth_account ''a1''"] h1 h2
    by (simp add: c n remainingQuota_half js_round_def floor_rat_div_numeral)
qed

text \<open>
  The claim as stated fails: for the double that \<^verbatim>\<open>0.425\<close> denotes and a reset six
  minutes ahead the code logs 57 per cent, while \<open>100 * (1 - utilization)\<close> rounded is 58,
  for that double as for 0.425 itself.
\<close>

theorem quota_rounds_the_double_product:
  "checkAndResetFiveHourWindow quiet_env (oauth_account ''a1'')
       \<lparr>resets_at = At 360000, utilization = Some (fl (425 / 1000))\<rparr> 0 =
     (False, 0, [Log Info (WindowExpires ''a1'' 6 (fl (425 / 1000)) (Rounded 57))])
   \<and> js_round (100 * (1 - fl (425 / 1000))) = 58
   \<and> js_round (100 * (1 - 425 / 1000)) = 58"
proof -
  have "checkAndResetFiveHourWindow quiet_env (oauth_account ''a1'')
       \<lparr>resets_at = At 360000, utilization = Some (fl (425 / 1000))\<rparr> 0 =
     (False, 0, [Log Info (WindowExpires ''a1'' 6 (fl (425 / 1000)) (Rounded 57))])"
    by (simp add: checkAndResetFiveHourWindow_def Let_def RESET_THRESHOLD_MINUTES_def
        quiet_env_def oauth_account_def remainingQuota_0_425)
  then show ?thesis using exact_quota_0_425 by blast
qed




text \<open>
  Claim C5. The prober, by the answers of its collaborators. Without a token it returns
  false after the token request alone. After a response of status 200 whose body parses
  it waits two seconds and fetches the usage again; it returns false when the five-hour
  window of that usage has no \<^verbatim>\<open>resets_at\<close>, and stores the snapshot and returns
  true when it has one. After any other status it logs the first 200 characters of the
  body and returns false. An exception of any step (the token, the proxy, the request,
  the parsing of the body, the second fetch, the store, the printing of a date that did
  not parse) is logged and gives false.
\<close>

theorem prober_contract:
  "(\<forall>w1. getValidAccessToken env (acc_id a) w = (Inr None, w1) \<longrightarrow>
      triggerFiveHourInitialization env a w =
        (False, w1,
         [Log Info (Initializing (acc_name a)), Call (GetToken (acc_id a)),
          Log Warn (NoValidToken (acc_name a))]))
   \<and> (\<forall>tok w1 p w2 resp w3.
        getValidAccessToken env (acc_id a) w = (Inr (Some tok), w1)
        \<and> getProxyAgent env (acc_id a) w1 = (Inr p, w2)
        \<and> makeClaudeRequest env (probeRequest a tok p) w2 = (Inr resp, w3) \<longrightarrow>
        (statusCode resp \<noteq> 200 \<longrightarrow>
           triggerFiveHourInitialization env a w =
             (False, w3,
              probe_sent_events a tok p
              @ [Log Err (InitHttpFailed (acc_name a) (statusCode resp) (take 200 (body resp)))]))
        \<and> (\<forall>e. statusCode resp = 200 \<and> parseTokens env (body resp) = Inl e \<longrightarrow>
             triggerFiveHourInitialization env a w =
               (False, w3,
                probe_sent_events a tok p @ [Log Err (InitError (acc_name a) (message_of e))]))
        \<and> (\<forall>tin tout r w4.
             statusCode resp = 200 \<and> parseTokens env (body resp) = Inr (tin, tout)
             \<and> fetchOAuthUsage env (acc_id a) (delay env 2000 w3) = (r, w4) \<longrightarrow>
             (\<forall>e. r = Inl e \<longrightarrow>
                triggerFiveHourInitialization env a w =
                  (False, w4,
                   probe_sent_events a tok p
                   @ [Log Info (InitSuccess (acc_name a) tin tout), Sleep 2000,
                      Call (FetchUsage (acc_id a)),
                      Log Err (InitError (acc_name a) (message_of e))]))
             \<and> (\<forall>nu. r = Inr nu \<and> \<not> activated nu \<longrightarrow>
                  triggerFiveHourInitialization env a w =
                    (False, w4,
                     probe_sent_events a tok p
                     @ [Log Info (InitSuccess (acc_name a) tin tout), Sleep 2000,
                        Call (FetchUsage (acc_id a))]))
             \<and> (\<forall>u fh rp w5.
                  r = Inr (Some u) \<and> five_hour u = Some fh \<and> resets_at fh \<noteq> Absent
                  \<and> updateClaudeUsageSnapshot env (acc_id a) u w4 = (rp, w5) \<longrightarrow>
                  (\<forall>e. rp = Inl e \<longrightarrow>
                     triggerFiveHourInitialization env a w =
                       (False, w5,
                        probe_sent_events a tok p
                        @ [Log Info (InitSuccess (acc_name a) tin tout), Sleep 2000,
                           Call (FetchUsage (acc_id a)), Call (PutSnapshot (acc_id a) u),
                           Log Err (InitError (acc_name a) (message_of e))]))
                  \<and> (\<forall>x t. rp = Inr x \<and> resets_at fh = At t \<longrightarrow>
                       triggerFiveHourInitialization env a w =
                         (True, w5,
                          probe_sent_events a tok p
                          @ [Log Info (InitSuccess (acc_name a) tin tout), Sleep 2000,
                             Call (FetchUsage (acc_id a)), Call (PutSnapshot (acc_id a) u),
                             Log Info (WindowState (acc_name a) (utilization fh) t)]))
                  \<and> (\<forall>x. rp = Inr x \<and> resets_at fh = Unparsable \<longrightarrow>
                       triggerFiveHourInitialization env a w =
                         (False, w5,
                          probe_sent_events a tok p
                          @ [Log Info (InitSuccess (acc_name a) tin tout), Sleep 2000,
                             Call (FetchUsage (acc_id a)), Call (PutSnapshot (acc_id a) u),
                             Log Err (InitError (acc_name a) ''Invalid time value'')])))))
   \<and> (\<forall>e w1. getValidAccessToken env (acc_id a) w = (Inl e, w1) \<longrightarrow>
        triggerFiveHourInitialization env a w =
          (False, w1,
           [Log Info (Initializing (acc_name a)), Call (GetToken (acc_id a)),
            Log Err (InitError (acc_name a) (message_of e))]))
   \<and> (\<forall>tok w1 e w2.
        getValidAccessToken env (acc_id a) w = (Inr (Some tok), w1)
        \<and> getProxyAgent env (acc_id a) w1 = (Inl e, w2) \<longrightarrow>
        triggerFiveHourInitialization env a w =
          (False, w2,
           [Log Info (Initializing (acc_name a)), Call (GetToken (acc_id a)),
            Call (GetProxy (acc_id a)), Log Err (InitError (acc_name a) (message_of e))]))
   \<and> (\<forall>tok w1 p w2 e w3.
        getValidAccessToken env (acc_id a) w = (Inr (Some tok), w1)
        \<and> getProxyAgent env (acc_id a) w1 = (Inr p, w2)
        \<and> makeClaudeRequest env (probeRequest a tok p) w2 = (Inl e, w3) \<longrightarrow>
        triggerFiveHourInitialization env a w =
          (False, w3,
           probe_sent_events a tok p @ [Log Err (InitError (acc_name a) (message_of e))]))"
  by (auto simp add: triggerFiveHourInitialization_def tryInitialization_def
      verifyActivation_def Let_def probe_sent_events_def activated_def
      split: option.splits)

theorem prober_contract_witness:
  "getValidAccessToken quiet_env (acc_id (oauth_account ''a1'')) 0 = (Inr None, 0)
   \<and> triggerFiveHourInitialization quiet_env (oauth_account ''a1'') 0 =
       (False, 0, [Log Info (Initializing ''a1''), Call (GetToken ''a1''),
                   Log Warn (NoValidToken ''a1'')])
   \<and> fetchOAuthUsage probe_env ''a1'' (delay probe_env 2000 0) = (Inr (Some active_snapshot), 2000)
   \<and> triggerFiveHourInitialization probe_env (oauth_account ''a1'') 0 =
       (True, 2000,
        probe_sent_events (oauth_account ''a1'') ''token'' None
        @ [Log Info (InitSuccess ''a1'' 8 1), Sleep 2000, Call (FetchUsage ''a1''),
           Call (PutSnapshot ''a1'' active_snapshot),
           Log Info (WindowState ''a1'' (Some (1 / 2)) 18000000)])"
proof -
  let ?a = "oauth_account ''a1''"
  have i: "acc_id ?a = ''a1''" "acc_name ?a = ''a1''" by (simp_all add: oauth_account_def)
  have q: "getValidAccessToken quiet_env (acc_id ?a) 0 = (Inr None, 0)"
    by (simp add: quiet_env_def)
  have r1: "triggerFiveHourInitialization quiet_env ?a 0 =
       (False, 0, [Log Info (Initializing ''a1''), Call (GetToken ''a1''),
                   Log Warn (NoValidToken ''a1'')])"
    using prober_contract[of quiet_env ?a 0] q i by simp
  have t: "getValidAccessToken probe_env (acc_id ?a) 0 = (Inr (Some ''token''), 0)"
    and p: "getProxyAgent probe_env (acc_id ?a) 0 = (Inr None, 0)"
    and s: "makeClaudeRequest probe_env (probeRequest ?a ''token'' None) 0
              = (Inr \<lparr>statusCode = 200, body = ''{}''\<rparr>, 0)"
    and j: "parseTokens probe_env ''{}'' = Inr (8, 1)"
    and f: "fetchOAuthUsage probe_env (acc_id ?a) (delay probe_env 2000 0)
              = (Inr (Some active_snapshot), 2000)"
    and u: "updateClaudeUsageSnapshot probe_env (acc_id ?a) active_snapshot 2000 = (Inr (), 2000)"
    by (simp_all add: probe_env_def quiet_env_def)
  have w: "five_hour active_snapshot = Some (window_at 18000000)"
    "resets_at (window_at 18000000) = At 18000000"
    "utilization (window_at 18000000) = Some (1 / 2)"
    by (simp_all add: active_snapshot_def window_at_def)
  have r2: "triggerFiveHourInitialization probe_env ?a 0 =
       (True, 2000,
        probe_sent_events ?a ''token'' None
        @ [Log Info (InitSuccess ''a1'' 8 1), Sleep 2000, Call (FetchUsage ''a1''),
           Call (PutSnapshot ''a1'' active_snapshot),
           Log Info (WindowState ''a1'' (Some (1 / 2)) 18000000)])"
    using prober_contract[of probe_env ?a 0] t p s j f u w i by simp
  show ?thesis using q r1 f r2 i by simp
qed

subsection \<open>The update pass\<close>

lemma oauth_account_eligible: "eligible (oauth_account i)"
  by (simp add: eligible_def oauth_account_def isOAuth_def scopeList_def js_trim_def
      js_space_def js_split_def)

lemma updateAccount_outcome:
  "updateAccount env a c w =
     (count_outcome (account_outcome env a w) c,
      fst (snd (updateAccount env a noCounts w)),
      snd (snd (updateAccount env a noCounts w)))"
  by (simp add: updateAccount_def refreshAccount_def account_outcome_def split_beta
      split: sum.splits option.splits)

lemma updateLoop_counts:
  "successCount (fst (updateLoop env accounts c w)) =
     successCount c + length (filter refreshed (pass_outcomes env accounts w))
   \<and> skipCount (fst (updateLoop env accounts c w)) =
     skipCount c + length (filter (\<lambda>x. x = Skipped) (pass_outcomes env accounts w))
   \<and> initCount (fst (updateLoop env accounts c w)) =
     initCount c + length (filter (\<lambda>x. x = Refreshed True) (pass_outcomes env accounts w))
   \<and> failureCount (fst (updateLoop env accounts c w)) =
     failureCount c + length (filter (\<lambda>x. x = Failed) (pass_outcomes env accounts w))"
proof (induction accounts arbitrary: c w)
  case Nil
  show ?case by simp
next
  case (Cons a rest)
  let ?o = "account_outcome env a w"
  let ?w1 = "fst (snd (updateAccount env a noCounts w))"
  have st: "fst (updateLoop env (a # rest) c w) = fst (updateLoop env rest (count_outcome ?o c) ?w1)"
    by (simp add: updateAccount_outcome[of env a c w] split_beta)
  show ?case
    unfolding st using Cons.IH[of "count_outcome ?o c" ?w1]
    by (cases ?o) auto
qed

text \<open>
  Claim C8, as amended. \<^verbatim>\<open>updateAllAccountsUsage\<close> returns no value. When the
  enumeration succeeds, the last line it logs carries the counts of the pass: the numbers
  of accounts refreshed, skipped as ineligible, initialized by the probe and failed, and
  the number of accounts enumerated.
\<close>

theorem update_pass_reports_counts:
  "fst (updateAllAccountsUsage env w) = Inr ()
   \<and> (\<forall>accounts w1. getAllClaudeAccounts env w = (Inr accounts, w1) \<longrightarrow>
        last (snd (snd (updateAllAccountsUsage env w))) =
          Log Info (UpdateCompleted
            (length (filter refreshed (pass_outcomes env accounts w1)))
            (length (filter (\<lambda>x. x = Skipped) (pass_outcomes env accounts w1)))
            (length (filter (\<lambda>x. x = Refreshed True) (pass_outcomes env accounts w1)))
            (length (filter (\<lambda>x. x = Failed) (pass_outcomes env accounts w1)))
            (length accounts)))"
proof -
  have r: "fst (updateAllAccountsUsage env w) = Inr ()"
    by (simp add: updateAllAccountsUsage_def split_beta split: sum.splits)
  have l: "getAllClaudeAccounts env w = (Inr accounts, w1) \<Longrightarrow>
        last (snd (snd (updateAllAccountsUsage env w))) =
          Log Info (UpdateCompleted
            (length (filter refreshed (pass_outcomes env accounts w1)))
            (length (filter (\<lambda>x. x = Skipped) (pass_outcomes env accounts w1)))
            (length (filter (\<lambda>x. x = Refreshed True) (pass_outcomes env accounts w1)))
            (length (filter (\<lambda>x. x = Failed) (pass_outcomes env accounts w1)))
            (length accounts))" for accounts w1
    using updateLoop_counts[of env accounts noCounts w1]
    by (simp add: updateAllAccountsUsage_def split_beta noCounts_def)
  show ?thesis using r l by blast
qed

lemma three_outcomes:
  "pass_outcomes three_env [oauth_account ''a1'', oauth_account ''a2'', oauth_account ''a3''] 0
     = [Refreshed False, Failed, Refreshed False]"
proof -
  have e: "\<And>i. isActive (oauth_account i) = Some ''true''" "\<And>i. isOAuth (oauth_account i)"
    using oauth_account_eligible by (simp_all add: eligible_def)
  have i: "\<And>i. acc_id (oauth_account i) = i" by (simp add: oauth_account_def)
  have c: "\<And>a w. checkAndResetFiveHourWindow three_env a (window_at 18000000) w
      = (if (18000000 - w) div 60000 \<le> 10
         then (False, w, [Log Info (WindowExpires (acc_name a) ((18000000 - w) div 60000) (1 / 2)
                 (remainingQuota (1 / 2)))])
         else (False, w, []))"
    by (simp add: checkAndResetFiveHourWindow_def window_at_def three_env_def quiet_env_def
        Let_def RESET_THRESHOLD_MINUTES_def)
  have f: "\<And>i w. fetchOAuthUsage three_env i w =
      (if i = ''a2'' then (Inl (Error ''timeout''), w) else (Inr (Some active_snapshot), w))"
    "\<And>i u w. updateClaudeUsageSnapshot three_env i u w = (Inr (), w)"
    "\<And>ms w. delay three_env ms w = w + ms"
    by (simp_all add: three_env_def quiet_env_def)
  have s: "five_hour active_snapshot = Some (window_at 18000000)"
    by (simp add: active_snapshot_def)
  show ?thesis
    by (simp add: account_outcome_def updateAccount_def refreshAccount_def e i c f s)
qed

theorem update_pass_reports_counts_witness:
  "getAllClaudeAccounts three_env 0 =
     (Inr [oauth_account ''a1'', oauth_account ''a2'', oauth_account ''a3''], 0)
   \<and> last (snd (snd (updateAllAccountsUsage three_env 0))) = Log Info (UpdateCompleted 2 0 0 1 3)"
proof -
  have g: "getAllClaudeAccounts three_env 0 =
     (Inr [oauth_account ''a1'', oauth_account ''a2'', oauth_account ''a3''], 0)"
    by (simp add: three_env_def quiet_env_def)
  show ?thesis using update_pass_reports_counts[of three_env 0] g three_outcomes by simp
qed

text \<open>
  The claim as stated fails: a pass over no account and a pass that skips one account
  hand the same value to the caller, though their counts differ.
\<close>

theorem update_pass_returns_no_counts:
  "fst (updateAllAccountsUsage quiet_env 0) = fst (updateAllAccountsUsage skip_env 0)
   \<and> last (snd (snd (updateAllAccountsUsage quiet_env 0))) = Log Info (UpdateCompleted 0 0 0 0 0)
   \<and> last (snd (snd (updateAllAccountsUsage skip_env 0))) = Log Info (UpdateCompleted 0 1 0 0 1)"
  by (simp add: updateAllAccountsUsage_def quiet_env_def skip_env_def noCounts_def
      updateAccount_def inactive_account_def)

lemma updateAccount_fetch_throws:
  assumes "eligible a" and "fetchOAuthUsage env (acc_id a) w = (Inl e, w1)"
  shows "updateAccount env a c w =
     (c\<lparr>failureCount := failureCount c + 1\<rparr>, delay env 1000 w1,
      [Call (FetchUsage (acc_id a)), Log Warn (UpdateFailed (acc_name a) (message_of e)),
       Sleep 1000])"
  using assms by (simp add: updateAccount_def refreshAccount_def eligible_def)

lemma updateAccount_fetch_null:
  assumes "eligible a" and "fetchOAuthUsage env (acc_id a) w = (Inr None, w1)"
  shows "updateAccount env a c w =
     (c\<lparr>failureCount := failureCount c + 1\<rparr>, delay env 1000 w1,
      [Call (FetchUsage (acc_id a)), Log Warn (NoUsageData (acc_name a)), Sleep 1000])"
  using assms by (simp add: updateAccount_def refreshAccount_def eligible_def)

lemma outcome_refreshed:
  assumes "eligible a" and "\<forall>w. \<exists>u w'. fetchOAuthUsage env (acc_id a) w = (Inr (Some u), w')"
    and "\<forall>i u w. \<exists>w'. updateClaudeUsageSnapshot env i u w = (Inr (), w')"
  shows "refreshed (account_outcome env a w)"
proof -
  obtain u w1 where f: "fetchOAuthUsage env (acc_id a) w = (Inr (Some u), w1)"
    using assms(2) by blast
  obtain w2 where p: "updateClaudeUsageSnapshot env (acc_id a) u w1 = (Inr (), w2)"
    using assms(3) by blast
  show ?thesis using assms(1) f p by (simp add: account_outcome_def eligible_def)
qed

lemma outcome_failed:
  assumes "eligible a" and "\<forall>w. \<exists>e w'. fetchOAuthUsage env (acc_id a) w = (Inl e, w')"
  shows "account_outcome env a w = Failed"
proof -
  obtain e w1 where f: "fetchOAuthUsage env (acc_id a) w = (Inl e, w1)"
    using assms(2) by blast
  show ?thesis using assms(1) f by (simp add: account_outcome_def eligible_def)
qed

text \<open>
  Claim C2. When the fetch of an eligible account throws, or returns nothing, the loop
  adds one to the failure counter, logs a warning, waits, and goes on with the rest of
  the accounts from there. In a pass over three eligible accounts of which the second
  one's fetch throws, while the other two are fetched and stored, the counters end at two
  successes, one failure and no skip.
\<close>

theorem fetch_failure_is_counted:
  "(\<forall>e w1. eligible a \<and> fetchOAuthUsage env (acc_id a) w = (Inl e, w1) \<longrightarrow>
      updateLoop env (a # rest) c w =
        (case updateLoop env rest (c\<lparr>failureCount := failureCount c + 1\<rparr>) (delay env 1000 w1) of
           (c2, w2, evs) \<Rightarrow>
             (c2, w2,
              [Call (FetchUsage (acc_id a)),
               Log Warn (UpdateFailed (acc_name a) (message_of e)), Sleep 1000] @ evs)))
   \<and> (\<forall>w1. eligible a \<and> fetchOAuthUsage env (acc_id a) w = (Inr None, w1) \<longrightarrow>
      updateLoop env (a # rest) c w =
        (case updateLoop env rest (c\<lparr>failureCount := failureCount c + 1\<rparr>) (delay env 1000 w1) of
           (c2, w2, evs) \<Rightarrow>
             (c2, w2,
              [Call (FetchUsage (acc_id a)), Log Warn (NoUsageData (acc_name a)),
               Sleep 1000] @ evs)))
   \<and> (\<forall>a1 a2 a3.
        eligible a1 \<and> eligible a2 \<and> eligible a3
        \<and> (\<forall>w. \<exists>u w'. fetchOAuthUsage env (acc_id a1) w = (Inr (Some u), w'))
        \<and> (\<forall>w. \<exists>e w'. fetchOAuthUsage env (acc_id a2) w = (Inl e, w'))
        \<and> (\<forall>w. \<exists>u w'. fetchOAuthUsage env (acc_id a3) w = (Inr (Some u), w'))
        \<and> (\<forall>i u w. \<exists>w'. updateClaudeUsageSnapshot env i u w = (Inr (), w')) \<longrightarrow>
        successCount (fst (updateLoop env [a1, a2, a3] noCounts w)) = 2
        \<and> failureCount (fst (updateLoop env [a1, a2, a3] noCounts w)) = 1
        \<and> skipCount (fst (updateLoop env [a1, a2, a3] noCounts w)) = 0)"
proof -
  have p1: "eligible a \<and> fetchOAuthUsage env (acc_id a) w = (Inl e, w1) \<Longrightarrow>
      updateLoop env (a # rest) c w =
        (case updateLoop env rest (c\<lparr>failureCount := failureCount c + 1\<rparr>) (delay env 1000 w1) of
           (c2, w2, evs) \<Rightarrow>
             (c2, w2,
              [Call (FetchUsage (acc_id a)),
               Log Warn (UpdateFailed (acc_name a) (message_of e)), Sleep 1000] @ evs))" for e w1
    using updateAccount_fetch_throws[of a env w e w1 c] by (simp add: split_beta)
  have p2: "eligible a \<and> fetchOAuthUsage env (acc_id a) w = (Inr None, w1) \<Longrightarrow>
      updateLoop env (a # rest) c w =
        (case updateLoop env rest (c\<lparr>failureCount := failureCount c + 1\<rparr>) (delay env 1000 w1) of
           (c2, w2, evs) \<Rightarrow>
             (c2, w2,
              [Call (FetchUsage (acc_id a)), Log Warn (NoUsageData (acc_name a)),
               Sleep 1000] @ evs))" for w1
    using updateAccount_fetch_null[of a env w w1 c] by (simp add: split_beta)
  have p3: "eligible a1 \<and> eligible a2 \<and> eligible a3
        \<and> (\<forall>w. \<exists>u w'. fetchOAuthUsage env (acc_id a1) w = (Inr (Some u), w'))
        \<and> (\<forall>w. \<exists>e w'. fetchOAuthUsage env (acc_id a2) w = (Inl e, w'))
        \<and> (\<forall>w. \<exists>u w'. fetchOAuthUsage env (acc_id a3) w = (Inr (Some u), w'))
        \<and> (\<forall>i u w. \<exists>w'. updateClaudeUsageSnapshot env i u w = (Inr (), w')) \<Longrightarrow>
        successCount (fst (updateLoop env [a1, a2, a3] noCounts w)) = 2
        \<and> failureCount (fst (updateLoop env [a1, a2, a3] noCounts w)) = 1
        \<and> skipCount (fst (updateLoop env [a1, a2, a3] noCounts w)) = 0" for a1 a2 a3
  proof -
    assume h: "eligible a1 \<and> eligible a2 \<and> eligible a3
        \<and> (\<forall>w. \<exists>u w'. fetchOAuthUsage env (acc_id a1) w = (Inr (Some u), w'))
        \<and> (\<forall>w. \<exists>e w'. fetchOAuthUsage env (acc_id a2) w = (Inl e, w'))
        \<and> (\<forall>w. \<exists>u w'. fetchOAuthUsage env (acc_id a3) w = (Inr (Some u), w'))
        \<and> (\<forall>i u w. \<exists>w'. updateClaudeUsageSnapshot env i u w = (Inr (), w'))"
    let ?w1 = "fst (snd (updateAccount env a1 noCounts w))"
    let ?w2 = "fst (snd (updateAccount env a2 noCounts ?w1))"
    obtain b1 where o1: "account_outcome env a1 w = Refreshed b1"
      using outcome_refreshed[of a1 env w] h by (cases "account_outcome env a1 w") auto
    have o2: "account_outcome env a2 ?w1 = Failed"
      using outcome_failed[of a2 env ?w1] h by blast
    obtain b3 where o3: "account_outcome env a3 ?w2 = Refreshed b3"
      using outcome_refreshed[of a3 env ?w2] h by (cases "account_outcome env a3 ?w2") auto
    have "pass_outcomes env [a1, a2, a3] w = [Refreshed b1, Failed, Refreshed b3]"
      using o1 o2 o3 by simp
    then show ?thesis
      using updateLoop_counts[of env "[a1, a2, a3]" noCounts w] by (simp add: noCounts_def)
  qed
  show ?thesis using p1 p2 p3 by blast
qed

theorem fetch_failure_is_counted_witness:
  "eligible (oauth_account ''a2'')
   \<and> fetchOAuthUsage three_env (acc_id (oauth_account ''a2'')) 0 = (Inl (Error ''timeout''), 0)
   \<and> (\<forall>w. \<exists>u w'. fetchOAuthUsage three_env (acc_id (oauth_account ''a1'')) w = (Inr (Some u), w'))
   \<and> (\<forall>i u w. \<exists>w'. updateClaudeUsageSnapshot three_env i u w = (Inr (), w'))
   \<and> successCount (fst (updateLoop three_env
        [oauth_account ''a1'', oauth_account ''a2'', oauth_account ''a3''] noCounts 0)) = 2
   \<and> failureCount (fst (updateLoop three_env
        [oauth_account ''a1'', oauth_account ''a2'', oauth_account ''a3''] noCounts 0)) = 1
   \<and> skipCount (fst (updateLoop three_env
        [oauth_account ''a1'', oauth_account ''a2'', oauth_account ''a3''] noCounts 0)) = 0
   \<and> fst (updateLoop three_env [oauth_account ''a2''] noCounts 0) = noCounts\<lparr>failureCount := 1\<rparr>"
proof -
  have i: "\<And>i. acc_id (oauth_account i) = i" by (simp add: oauth_account_def)
  have f1: "\<forall>w. \<exists>u w'. fetchOAuthUsage three_env (acc_id (oauth_account ''a1'')) w = (Inr (Some u), w')"
    and f2: "\<forall>w. \<exists>e w'. fetchOAuthUsage three_env (acc_id (oauth_account ''a2'')) w = (Inl e, w')"
    and f3: "\<forall>w. \<exists>u w'. fetchOAuthUsage three_env (acc_id (oauth_account ''a3'')) w = (Inr (Some u), w')"
    and pt: "\<forall>i u w. \<exists>w'. updateClaudeUsageSnapshot three_env i u w = (Inr (), w')"
    and f0: "fetchOAuthUsage three_env (acc_id (oauth_account ''a2'')) 0 = (Inl (Error ''timeout''), 0)"
    by (simp_all add: three_env_def quiet_env_def i)
  note t = fetch_failure_is_counted[of "oauth_account ''a2''" three_env 0 "[]" noCounts]
  have s: "successCount (fst (updateLoop three_env
        [oauth_account ''a1'', oauth_account ''a2'', oauth_account ''a3''] noCounts 0)) = 2
   \<and> failureCount (fst (updateLoop three_env
        [oauth_account ''a1'', oauth_account ''a2'', oauth_account ''a3''] noCounts 0)) = 1
   \<and> skipCount (fst (updateLoop three_env
        [oauth_account ''a1'', oauth_account ''a2'', oauth_account ''a3''] noCounts 0)) = 0"
    using t f1 f2 f3 pt oauth_account_eligible by blast
  have one: "updateLoop three_env [oauth_account ''a2''] noCounts 0 =
        (case updateLoop three_env [] (noCounts\<lparr>failureCount := failureCount noCounts + 1\<rparr>)
                (delay three_env 1000 0) of
           (c2, w2, evs) \<Rightarrow>
             (c2, w2,
              [Call (FetchUsage (acc_id (oauth_account ''a2''))),
               Log Warn (UpdateFailed (acc_name (oauth_account ''a2'')) (message_of (Error ''timeout''))),
               Sleep 1000] @ evs))"
    using t f0 oauth_account_eligible by blast
  have "fst (updateLoop three_env [oauth_account ''a2''] noCounts 0) = noCounts\<lparr>failureCount := 1\<rparr>"
    unfolding one by (simp add: noCounts_def)
  then show ?thesis using s f0 f1 pt oauth_account_eligible by blast
qed




subsection \<open>The scheduler loop\<close>




lemma runAndScheduleNext_starts:
  "take (length cycleStarts) (snd (snd (runAndScheduleNext env s w))) = cycleStarts"
  by (simp add: runAndScheduleNext_def updateAllAccountsUsage_def cycleStarts_def split_beta
      split: sum.splits)









text \<open>
  Claim C6 fails on the code. \<^verbatim>\<open>start(); stop(); start()\<close> leaves two cycles in
  flight; each finds the service running when it ends and arms a timer, and the second
  overwrites the handle of the first. Two timers are armed while the service runs, and
  \<^verbatim>\<open>stop\<close>, called twice, clears only the one it has the handle of.
\<close>

theorem restart_leaves_two_timers:
  "isRunning (fst (run quiet_env [CallStart, CallStop, CallStart, CycleCompletes, CycleCompletes]
                    (initialService, 0, [])))
   \<and> armed (fst (run quiet_env [CallStart, CallStop, CallStart, CycleCompletes, CycleCompletes]
                    (initialService, 0, []))) = [(0, 1200000), (1, 1200000)]
   \<and> \<not> isRunning (fst (run quiet_env
         [CallStart, CallStop, CallStart, CycleCompletes, CycleCompletes, CallStop, CallStop]
         (initialService, 0, [])))
   \<and> armed (fst (run quiet_env
         [CallStart, CallStop, CallStart, CycleCompletes, CycleCompletes, CallStop, CallStop]
         (initialService, 0, []))) = [(0, 1200000)]"
proof -
  have c: "\<And>s w. runAndScheduleNext quiet_env s w =
     (if isRunning s then armNext 1200000 s else s, w,
      [Log Info UpdateStarting, Call ListAccounts, Log Info (UpdateCompleted 0 0 0 0 0),
       Call ListAccounts, Log Info NoUpcomingResets]
      @ (if isRunning s then [Log Info (NextScheduled (w + 1200000) 20)] else []))"
    by (simp add: runAndScheduleNext_def updateAllAccountsUsage_def calculateNextInterval_def
        chooseInterval_def quiet_env_def noCounts_def BASE_INTERVAL_def js_round_def
        floor_rat_div_numeral)
  show ?thesis
    by (simp add: run_def c start_def stop_def initialService_def armNext_def setTimeout_def
        clearTimeout_def cycleStarts_def)
qed

end
